theory Spec2Isabelle
  imports Main "HOL-Library.AList" "HOL-Library.Sublist"
begin

section \<open>Python values\<close>

text \<open>
  The handlers of \<^verbatim>\<open>flaskr/__init__.py\<close> read JSON request bodies and build
  dictionaries that \<^verbatim>\<open>jsonify\<close> serialises. Both are Python values: \<^verbatim>\<open>None\<close>,
  booleans, unbounded integers, strings, lists and dictionaries (an association list in
  insertion order). Floating-point numbers are left out.
\<close>

datatype pyval =
    VNone
  | VBool bool
  | VInt int
  | VStr string
  | VList "pyval list"
  | VDict "(pyval \<times> pyval) list"

text \<open>Python truth value testing, as used by \<^verbatim>\<open>not x\<close> and \<^verbatim>\<open>x and y\<close>.\<close>

fun truthy :: "pyval \<Rightarrow> bool" where
  "truthy VNone = False"
| "truthy (VBool b) = b"
| "truthy (VInt n) = (n \<noteq> 0)"
| "truthy (VStr s) = (s \<noteq> [])"
| "truthy (VList xs) = (xs \<noteq> [])"
| "truthy (VDict kvs) = (kvs \<noteq> [])"

text \<open>
  Exceptions are values. \<open>HTTPException c\<close> is what \<^verbatim>\<open>abort(c)\<close> raises; it is a
  subclass of \<^verbatim>\<open>Exception\<close>, so an \<^verbatim>\<open>except Exception\<close> clause catches it too.
\<close>

datatype error =
    HTTPException nat
  | AttributeError
  | KeyError
  | TypeError
  | IndexError
  | ArgumentError
  | StorageError

text \<open>\<^verbatim>\<open>d.get(key, None)\<close>: a method of dictionaries only.\<close>

fun dict_get :: "pyval \<Rightarrow> string \<Rightarrow> error + pyval" where
  "dict_get (VDict kvs) key =
     (case map_of kvs (VStr key) of None \<Rightarrow> Inr VNone | Some v \<Rightarrow> Inr v)"
| "dict_get _ key = Inl AttributeError"

text \<open>\<^verbatim>\<open>v[key]\<close> with a string key.\<close>

fun getitem :: "pyval \<Rightarrow> string \<Rightarrow> error + pyval" where
  "getitem (VDict kvs) key =
     (case map_of kvs (VStr key) of None \<Rightarrow> Inl KeyError | Some v \<Rightarrow> Inr v)"
| "getitem _ key = Inl TypeError"

text \<open>\<^verbatim>\<open>v == 0\<close>: \<^verbatim>\<open>False == 0\<close> holds in Python.\<close>

fun eq_zero :: "pyval \<Rightarrow> bool" where
  "eq_zero (VInt n) = (n = 0)"
| "eq_zero (VBool b) = (\<not> b)"
| "eq_zero _ = False"

text \<open>
  \<^verbatim>\<open>xs[start:end]\<close>: a negative bound counts from the end, and both bounds are
  clamped to the list.
\<close>

definition py_slice :: "'a list \<Rightarrow> int \<Rightarrow> int \<Rightarrow> 'a list" where
  "py_slice xs start stop =
     (let n = int (length xs);
          lo = (if start < 0 then max (start + n) 0 else min start n);
          hi = (if stop < 0 then max (stop + n) 0 else min stop n)
      in take (nat (hi - lo)) (drop (nat lo) xs))"

section \<open>The data model\<close>

record question_row =
  qid :: int
  question :: string
  answer :: string
  category :: int
  difficulty :: int

record category_row =
  cat_id :: int
  cat_type :: string

text \<open>
  Modelled from the spec: \<^verbatim>\<open>Question.format\<close> is defined in \<^verbatim>\<open>models.py\<close>, which
  is not among the sources. The spec says that a question is formatted into a flat record
  of its fields.
\<close>

definition format :: "question_row \<Rightarrow> pyval" where
  "format q = VDict
     [(VStr ''id'', VInt (qid q)),
      (VStr ''question'', VStr (question q)),
      (VStr ''answer'', VStr (answer q)),
      (VStr ''category'', VInt (category q)),
      (VStr ''difficulty'', VInt (difficulty q))]"

text \<open>
  The database session. \<open>pending\<close> holds the changes of the open transaction,
  \<open>calls\<close> records the session calls a handler has made, in order.
\<close>

datatype change = Ins pyval pyval pyval pyval | Del int

datatype db_call = Select | Lookup | Delete | Add | Commit | Rollback | Close

text \<open>
  Modelled from the spec: the table definitions and the id generator are in
  \<^verbatim>\<open>models.py\<close>. The spec gives a question a unique, generated id; \<open>id_seq\<close> is the
  next value of that generator.
\<close>

record db =
  questions :: "question_row list"
  categories :: "category_row list"
  id_seq :: int
  pending :: "change list"
  calls :: "db_call list"

text \<open>
  What the handlers take from library code is a parameter:
  \<^item> \<open>py_int\<close> is Python's \<^verbatim>\<open>int(s)\<close>, \<open>None\<close> when it raises \<^verbatim>\<open>ValueError\<close>;
  \<^item> \<open>py_str\<close> is \<^verbatim>\<open>str(v)\<close> for a value that is not a string;
  \<^item> \<open>randbelow n\<close> is the index \<^verbatim>\<open>random.choice\<close> draws for a sequence of length \<open>n\<close>;
  \<^item> \<open>raises c\<close> says that the storage call \<open>c\<close> raises in this request, whatever
    the reason;
  \<^item> \<open>untyped_select\<close> and \<open>untyped_insert\<close> say what the database does with
    parameters that are not of the column's type (it may read the string \<^verbatim>\<open>'5'\<close> as
    the integer 5, or refuse): \<open>None\<close> when it raises, otherwise the test that
    selects the rows (for a category, \<open>None\<close> when there is none, and the excluded
    ids), and the values stored.
\<close>

record env =
  py_int :: "string \<Rightarrow> int option"
  py_str :: "pyval \<Rightarrow> string"
  randbelow :: "nat \<Rightarrow> nat"
  raises :: "db_call \<Rightarrow> bool"
  untyped_select :: "pyval option \<Rightarrow> pyval list \<Rightarrow> (question_row \<Rightarrow> bool) option"
  untyped_insert :: "pyval \<Rightarrow> pyval \<Rightarrow> pyval \<Rightarrow> pyval \<Rightarrow> (string \<times> string \<times> int \<times> int) option"

section \<open>Error handlers\<close>

type_synonym response = "nat \<times> pyval"

definition envelope :: "int \<Rightarrow> string \<Rightarrow> pyval" where
  "envelope code message = VDict
     [(VStr ''success'', VBool False),
      (VStr ''error'', VInt code),
      (VStr ''message'', VStr message)]"

text \<open>The source names the handlers of 400 and of 404 both \<^verbatim>\<open>not_found\<close>.\<close>

definition not_found_400 :: response where
  "not_found_400 = (400, envelope 400 ''bad request!'')"

definition not_found :: response where
  "not_found = (404, envelope 404 ''resource not found!'')"

text \<open>The handler of 405 returns the body alone: Flask sends it with status 200.\<close>

definition not_allowed :: response where
  "not_allowed = (200, envelope 405 ''method not allowed!'')"

definition unprocessable :: response where
  "unprocessable = (422, envelope 422 ''unprocessable!'')"

definition internal_server_error :: response where
  "internal_server_error = (500, envelope 500 ''internal server error!'')"

text \<open>\<^verbatim>\<open>abort(code)\<close> seen from the client: the registered handler answers.\<close>

definition abort :: "nat \<Rightarrow> response" where
  "abort code =
     (if code = 400 then not_found_400
      else if code = 404 then not_found
      else if code = 405 then not_allowed
      else if code = 422 then unprocessable
      else if code = 500 then internal_server_error
      else (code, VNone))"

text \<open>An exception that leaves a handler: Flask answers an HTTP exception with its
  handler and anything else as an internal server error.\<close>

fun uncaught :: "error \<Rightarrow> response" where
  "uncaught (HTTPException code) = abort code"
| "uncaught _ = abort 500"

section \<open>GET /questions\<close>

definition QUESTIONS_PER_PAGE :: int where
  "QUESTIONS_PER_PAGE = 10"

text \<open>\<^verbatim>\<open>request.args.get(key, default, type=conv)\<close>: the default when the key is
  absent and when the conversion raises.\<close>

definition args_get :: "(string \<times> string) list \<Rightarrow> string \<Rightarrow> 'a \<Rightarrow> (string \<Rightarrow> 'a option) \<Rightarrow> 'a" where
  "args_get args key dflt conv =
     (case map_of args key of
        None \<Rightarrow> dflt
      | Some s \<Rightarrow> (case conv s of None \<Rightarrow> dflt | Some v \<Rightarrow> v))"

definition paginate_questions :: "env \<Rightarrow> (string \<times> string) list \<Rightarrow> question_row list \<Rightarrow> pyval list" where
  "paginate_questions e args selection =
     (let page = args_get args ''page'' 1 (py_int e);
          start = (page - 1) * QUESTIONS_PER_PAGE;
          end = start + QUESTIONS_PER_PAGE;
          questions = map format selection
      in py_slice questions start end)"

text \<open>The dictionary comprehension \<^verbatim>\<open>{category.id: category.type for ...}\<close>: a later
  entry with the same key overwrites the value in place.\<close>

definition categories_dict :: "category_row list \<Rightarrow> (pyval \<times> pyval) list" where
  "categories_dict cats =
     foldl (\<lambda>d c. AList.update (VInt (cat_id c)) (VStr (cat_type c)) d) [] cats"

definition get_questions :: "env \<Rightarrow> (string \<times> string) list \<Rightarrow> db \<Rightarrow> response" where
  "get_questions e args d =
     (let selection = questions d;
          total_questions = length selection;
          current_questions = paginate_questions e args selection
      in if length current_questions = 0 then abort 404
         else (200, VDict
           [(VStr ''success'', VBool True),
            (VStr ''questions'', VList current_questions),
            (VStr ''total_questions'', VInt (int total_questions)),
            (VStr ''current_category'', VNone),
            (VStr ''categories'', VDict (categories_dict (categories d)))]))"

section \<open>GET /categories\<close>

definition get_categories :: "db \<Rightarrow> response" where
  "get_categories d =
     (200, VDict
        [(VStr ''success'', VBool True),
         (VStr ''categories'', VDict (categories_dict (categories d)))])"

section \<open>The session\<close>

text \<open>
  A change is applied when the transaction commits: a deletion removes the row of that
  id, an insertion stores the values at the next generated id. The database may refuse
  the values of an insertion.
\<close>

definition row_values :: "env \<Rightarrow> pyval \<Rightarrow> pyval \<Rightarrow> pyval \<Rightarrow> pyval \<Rightarrow> (string \<times> string \<times> int \<times> int) option" where
  "row_values e q a c df =
     (case (q, a, c, df) of
        (VStr q', VStr a', VInt c', VInt df') \<Rightarrow> Some (q', a', c', df')
      | _ \<Rightarrow> untyped_insert e q a c df)"

fun apply_change :: "env \<Rightarrow> change \<Rightarrow> db \<Rightarrow> db option" where
  "apply_change e (Del i) d = Some (d\<lparr>questions := [q \<leftarrow> questions d. qid q \<noteq> i]\<rparr>)"
| "apply_change e (Ins q a c df) d =
     (case row_values e q a c df of
        None \<Rightarrow> None
      | Some (q', a', c', df') \<Rightarrow>
          Some (d\<lparr>questions := questions d @
                    [\<lparr>qid = id_seq d, question = q', answer = a', category = c', difficulty = df'\<rparr>],
                  id_seq := id_seq d + 1\<rparr>))"

fun apply_changes :: "env \<Rightarrow> change list \<Rightarrow> db \<Rightarrow> db option" where
  "apply_changes e [] d = Some d"
| "apply_changes e (c # cs) d =
     (case apply_change e c d of None \<Rightarrow> None | Some d' \<Rightarrow> apply_changes e cs d')"

text \<open>\<^verbatim>\<open>Question.query.get(question_id)\<close>: the row of that primary key, or \<^verbatim>\<open>None\<close>.\<close>

definition query_get :: "env \<Rightarrow> int \<Rightarrow> db \<Rightarrow> error + question_row option" where
  "query_get e i d =
     (if raises e Lookup then Inl StorageError
      else Inr (find (\<lambda>q. qid q = i) (questions d)))"

definition session_delete :: "env \<Rightarrow> question_row \<Rightarrow> db \<Rightarrow> (error + unit) \<times> db" where
  "session_delete e q d =
     (let d' = d\<lparr>calls := calls d @ [Delete]\<rparr>
      in if raises e Delete then (Inl StorageError, d')
         else (Inr (), d'\<lparr>pending := pending d' @ [Del (qid q)]\<rparr>))"

definition session_add :: "env \<Rightarrow> pyval \<Rightarrow> pyval \<Rightarrow> pyval \<Rightarrow> pyval \<Rightarrow> db \<Rightarrow> (error + unit) \<times> db" where
  "session_add e q a c df d =
     (let d' = d\<lparr>calls := calls d @ [Add]\<rparr>
      in if raises e Add then (Inl StorageError, d')
         else (Inr (), d'\<lparr>pending := pending d' @ [Ins q a c df]\<rparr>))"

definition session_commit :: "env \<Rightarrow> db \<Rightarrow> (error + unit) \<times> db" where
  "session_commit e d =
     (let d' = d\<lparr>calls := calls d @ [Commit]\<rparr>
      in if raises e Commit then (Inl StorageError, d')
         else (case apply_changes e (pending d') d' of
                 None \<Rightarrow> (Inl StorageError, d')
               | Some d'' \<Rightarrow> (Inr (), d''\<lparr>pending := []\<rparr>)))"

definition session_rollback :: "db \<Rightarrow> db" where
  "session_rollback d = d\<lparr>pending := [], calls := calls d @ [Rollback]\<rparr>"

definition session_close :: "db \<Rightarrow> db" where
  "session_close d = d\<lparr>pending := [], calls := calls d @ [Close]\<rparr>"

section \<open>DELETE /questions/<int:question_id>\<close>

text \<open>The body of the \<^verbatim>\<open>try\<close>. The URL converter \<^verbatim>\<open>int\<close> accepts natural numbers.\<close>

definition delete_question_try :: "env \<Rightarrow> nat \<Rightarrow> db \<Rightarrow> (error + response) \<times> db" where
  "delete_question_try e question_id d =
     (case query_get e (int question_id) d of
        Inl x \<Rightarrow> (Inl x, d)
      | Inr None \<Rightarrow> (Inl (HTTPException 404), d)
      | Inr (Some row) \<Rightarrow>
          (case session_delete e row d of
             (Inl x, d1) \<Rightarrow> (Inl x, d1)
           | (Inr _, d1) \<Rightarrow>
               (case session_commit e d1 of
                  (Inl x, d2) \<Rightarrow> (Inl x, d2)
                | (Inr _, d2) \<Rightarrow>
                    (Inr (200, VDict
                       [(VStr ''success'', VBool True),
                        (VStr ''deleted'', VInt (int question_id))]), d2))))"

text \<open>\<^verbatim>\<open>except Exception\<close>: roll back and answer 404; \<^verbatim>\<open>finally\<close>: close.\<close>

definition delete_question :: "env \<Rightarrow> nat \<Rightarrow> db \<Rightarrow> response \<times> db" where
  "delete_question e question_id d =
     (case delete_question_try e question_id d of
        (Inr r, d1) \<Rightarrow> (r, session_close d1)
      | (Inl x, d1) \<Rightarrow> (abort 404, session_close (session_rollback d1)))"

section \<open>POST /questions\<close>

text \<open>
  The body of the \<^verbatim>\<open>try\<close>. After the commit the attributes of the question are
  those of its row, the last one inserted.
\<close>

definition add_question_try :: "env \<Rightarrow> pyval \<Rightarrow> pyval \<Rightarrow> pyval \<Rightarrow> pyval \<Rightarrow> db \<Rightarrow> (error + response) \<times> db" where
  "add_question_try e new_question new_answer new_category new_difficulty d =
     (case session_add e new_question new_answer new_category new_difficulty d of
        (Inl x, d1) \<Rightarrow> (Inl x, d1)
      | (Inr _, d1) \<Rightarrow>
          (case session_commit e d1 of
             (Inl x, d2) \<Rightarrow> (Inl x, d2)
           | (Inr _, d2) \<Rightarrow>
               (let q = last (questions d2)
                in (Inr (201, VDict
                      [(VStr ''success'', VBool True),
                       (VStr ''created'', VInt (qid q)),
                       (VStr ''question'', VStr (question q)),
                       (VStr ''answer'', VStr (answer q)),
                       (VStr ''category'', VInt (category q)),
                       (VStr ''difficulty'', VInt (difficulty q))]), d2))))"

text \<open>
  The four \<^verbatim>\<open>body.get\<close> and the validation stand before the \<^verbatim>\<open>try\<close>: what they
  raise leaves the handler, and the session is not touched.
\<close>

definition add_question :: "env \<Rightarrow> pyval \<Rightarrow> db \<Rightarrow> response \<times> db" where
  "add_question e body d =
     (case dict_get body ''question'' of Inl x \<Rightarrow> (uncaught x, d) | Inr new_question \<Rightarrow>
      case dict_get body ''answer'' of Inl x \<Rightarrow> (uncaught x, d) | Inr new_answer \<Rightarrow>
      case dict_get body ''category'' of Inl x \<Rightarrow> (uncaught x, d) | Inr new_category \<Rightarrow>
      case dict_get body ''difficulty'' of Inl x \<Rightarrow> (uncaught x, d) | Inr new_difficulty \<Rightarrow>
        if \<not> (truthy new_question \<and> truthy new_answer \<and> truthy new_category \<and> truthy new_difficulty)
        then (abort 400, d)
        else (case add_question_try e new_question new_answer new_category new_difficulty d of
                (Inr r, d1) \<Rightarrow> (r, session_close d1)
              | (Inl x, d1) \<Rightarrow> (abort 500, session_close (session_rollback d1))))"

section \<open>POST /questions/search\<close>

text \<open>
  SQL \<^verbatim>\<open>LIKE\<close>, pattern first: \<^verbatim>\<open>%\<close> matches any run of characters, \<^verbatim>\<open>_\<close> any one
  character, and a backslash takes the next character of the pattern literally. A pattern
  that ends in a lone backslash is an error in PostgreSQL; the handler's pattern ends
  in \<^verbatim>\<open>%\<close>.
\<close>

fun like :: "string \<Rightarrow> string \<Rightarrow> bool" where
  "like [] s = (s = [])"
| "like (p # ps) [] = (p = CHR ''%'' \<and> like ps [])"
| "like (p # ps) (c # s) =
     (if p = CHR ''%'' then like ps (c # s) \<or> like (p # ps) s
      else if p = CHR ''_'' then like ps s
      else if p = CHR 0x5C then (case ps of [] \<Rightarrow> False | x # ps' \<Rightarrow> c = x \<and> like ps' s)
      else c = p \<and> like ps s)"

text \<open>\<^verbatim>\<open>ILIKE\<close> compares without case; the letters modelled are those of ASCII.\<close>

definition lower :: "char \<Rightarrow> char" where
  "lower c =
     (if 65 \<le> (of_char c :: nat) \<and> (of_char c :: nat) \<le> 90
      then char_of ((of_char c :: nat) + 32) else c)"

definition ilike :: "string \<Rightarrow> string \<Rightarrow> bool" where
  "ilike s pattern = like (map lower pattern) (map lower s)"

text \<open>The characters with a meaning of their own in a pattern.\<close>

definition wildcard :: "char \<Rightarrow> bool" where
  "wildcard c = (c = CHR ''%'' \<or> c = CHR ''_'' \<or> c = CHR 0x5C)"

text \<open>The replacement field of an f-string: a string as it is, anything else through
  \<^verbatim>\<open>str\<close>.\<close>

definition fstring :: "env \<Rightarrow> pyval \<Rightarrow> string" where
  "fstring e v = (case v of VStr s \<Rightarrow> s | _ \<Rightarrow> py_str e v)"

definition search_questions_try :: "env \<Rightarrow> pyval \<Rightarrow> db \<Rightarrow> error + response" where
  "search_questions_try e search_term d =
     (if raises e Select then Inl StorageError
      else
        (let results = [q \<leftarrow> questions d. ilike (question q) (''%'' @ fstring e search_term @ ''%'')];
             questions = map format results;
             total_questions = length questions
         in Inr (200, VDict
              [(VStr ''success'', VBool True),
               (VStr ''questions'', VList questions),
               (VStr ''total_questions'', VInt (int total_questions)),
               (VStr ''current_category'', VNone)])))"

definition search_questions :: "env \<Rightarrow> pyval \<Rightarrow> db \<Rightarrow> response" where
  "search_questions e body d =
     (case dict_get body ''searchTerm'' of Inl x \<Rightarrow> uncaught x | Inr search_term \<Rightarrow>
        if \<not> truthy search_term then abort 400
        else (case search_questions_try e search_term d of
                Inr r \<Rightarrow> r
              | Inl x \<Rightarrow> abort 500))"

section \<open>GET /categories/<int:category_id>/questions\<close>

definition get_questions_by_category :: "env \<Rightarrow> nat \<Rightarrow> db \<Rightarrow> response" where
  "get_questions_by_category e category_id d =
     (if raises e Lookup then abort 500
      else case find (\<lambda>c. cat_id c = int category_id) (categories d) of
        None \<Rightarrow> abort 404
      | Some cat \<Rightarrow>
          (if raises e Select then abort 500
           else
             (let formatted_questions = map format [q \<leftarrow> questions d. category q = int category_id]
              in (200, VDict
                   [(VStr ''success'', VBool True),
                    (VStr ''questions'', VList formatted_questions),
                    (VStr ''total_questions'', VInt (int (length formatted_questions))),
                    (VStr ''current_category'', VStr (cat_type cat))]))))"

section \<open>POST /quizzes\<close>

text \<open>
  \<^verbatim>\<open>Question.id.in_(v)\<close>: SQLAlchemy takes the elements of any iterable that is not
  a string, so the elements of a list and the keys of a dictionary, and raises on
  every other value.
\<close>

fun in_list :: "pyval \<Rightarrow> error + pyval list" where
  "in_list (VList vs) = Inr vs"
| "in_list (VDict kvs) = Inr (map fst kvs)"
| "in_list _ = Inl ArgumentError"

fun int_ids :: "pyval list \<Rightarrow> int list option" where
  "int_ids [] = Some []"
| "int_ids (VInt n # vs) = map_option ((#) n) (int_ids vs)"
| "int_ids (_ # vs) = None"

text \<open>The query of the branch \<^verbatim>\<open>category['id'] == 0\<close>.\<close>

definition query_excluding :: "env \<Rightarrow> pyval \<Rightarrow> db \<Rightarrow> error + question_row list" where
  "query_excluding e previous_questions d =
     (case in_list previous_questions of
        Inl x \<Rightarrow> Inl x
      | Inr vs \<Rightarrow>
          if raises e Select then Inl StorageError
          else (case int_ids vs of
                  Some ps \<Rightarrow> Inr [q \<leftarrow> questions d. qid q \<notin> set ps]
                | None \<Rightarrow>
                    (case untyped_select e None vs of
                       None \<Rightarrow> Inl StorageError
                     | Some P \<Rightarrow> Inr (filter P (questions d)))))"

text \<open>The query of the other branch.\<close>

definition query_category_excluding :: "env \<Rightarrow> pyval \<Rightarrow> pyval \<Rightarrow> db \<Rightarrow> error + question_row list" where
  "query_category_excluding e cid previous_questions d =
     (case in_list previous_questions of
        Inl x \<Rightarrow> Inl x
      | Inr vs \<Rightarrow>
          if raises e Select then Inl StorageError
          else (case (cid, int_ids vs) of
                  (VInt c, Some ps) \<Rightarrow> Inr [q \<leftarrow> questions d. category q = c \<and> qid q \<notin> set ps]
                | _ \<Rightarrow>
                    (case untyped_select e (Some cid) vs of
                       None \<Rightarrow> Inl StorageError
                     | Some P \<Rightarrow> Inr (filter P (questions d)))))"

text \<open>\<^verbatim>\<open>random.choice(xs)\<close> is \<^verbatim>\<open>xs[randbelow(len(xs))]\<close>.\<close>

definition random_choice :: "env \<Rightarrow> 'a list \<Rightarrow> error + 'a" where
  "random_choice e xs =
     (let k = randbelow e (length xs)
      in if k < length xs then Inr (xs ! k) else Inl IndexError)"

definition play_quiz_try :: "env \<Rightarrow> pyval \<Rightarrow> db \<Rightarrow> error + response" where
  "play_quiz_try e body d =
     (case dict_get body ''quiz_category'' of Inl x \<Rightarrow> Inl x | Inr quiz_category \<Rightarrow>
      case dict_get body ''previous_questions'' of Inl x \<Rightarrow> Inl x | Inr previous_questions \<Rightarrow>
        if quiz_category = VNone \<or> previous_questions = VNone then Inl (HTTPException 400)
        else
          (case getitem quiz_category ''id'' of Inl x \<Rightarrow> Inl x | Inr cid \<Rightarrow>
           case (if eq_zero cid then query_excluding e previous_questions d
                 else query_category_excluding e cid previous_questions d) of
             Inl x \<Rightarrow> Inl x
           | Inr available_questions \<Rightarrow>
               (case (if available_questions \<noteq> []
                      then map_sum id format (random_choice e available_questions)
                      else Inr VNone) of
                  Inl x \<Rightarrow> Inl x
                | Inr new_question \<Rightarrow>
                    Inr (200, VDict
                      [(VStr ''success'', VBool True),
                       (VStr ''question'', new_question)]))))"

definition play_quiz :: "env \<Rightarrow> pyval \<Rightarrow> db \<Rightarrow> response" where
  "play_quiz e body d =
     (case play_quiz_try e body d of
        Inr r \<Rightarrow> r
      | Inl x \<Rightarrow> abort 400)"

section \<open>Routing\<close>

datatype http_method = GET | POST | PUT | PATCH | DELETE | HEAD | OPTIONS

datatype path =
    Categories
  | Questions
  | QuestionById nat
  | QuestionsSearch
  | CategoryQuestions nat
  | Quizzes
  | OtherPath

record request =
  req_method :: http_method
  req_path :: path
  req_args :: "(string \<times> string) list"
  req_json :: pyval

text \<open>The methods the \<^verbatim>\<open>@app.route\<close> decorators declare for each path.\<close>

fun methods_of :: "path \<Rightarrow> http_method list" where
  "methods_of Categories = [GET]"
| "methods_of Questions = [GET, POST]"
| "methods_of (QuestionById i) = [DELETE]"
| "methods_of QuestionsSearch = [POST]"
| "methods_of (CategoryQuestions i) = [GET]"
| "methods_of Quizzes = [POST]"
| "methods_of OtherPath = []"

fun view :: "env \<Rightarrow> http_method \<Rightarrow> path \<Rightarrow> request \<Rightarrow> db \<Rightarrow> response \<times> db" where
  "view e GET Categories r d = (get_categories d, d)"
| "view e GET Questions r d = (get_questions e (req_args r) d, d)"
| "view e POST Questions r d = add_question e (req_json r) d"
| "view e DELETE (QuestionById i) r d = delete_question e i d"
| "view e POST QuestionsSearch r d = (search_questions e (req_json r) d, d)"
| "view e GET (CategoryQuestions i) r d = (get_questions_by_category e i d, d)"
| "view e POST Quizzes r d = (play_quiz e (req_json r) d, d)"
| "view e m p r d = (abort 405, d)"

text \<open>
  The dispatch of Flask: a path that matches no rule is not found; \<^verbatim>\<open>OPTIONS\<close> is
  answered by the framework; \<^verbatim>\<open>HEAD\<close> is declared wherever \<^verbatim>\<open>GET\<close> is and runs its
  view; a method that no rule of the path declares is not allowed. The response to a
  \<^verbatim>\<open>HEAD\<close> request is sent without its body, whatever answered.
\<close>

definition app :: "env \<Rightarrow> request \<Rightarrow> db \<Rightarrow> response \<times> db" where
  "app e r d =
     (let m = req_method r; p = req_path r;
          answer =
            (if p = OtherPath then (abort 404, d)
             else if m = OPTIONS then ((200, VNone), d)
             else if m = HEAD \<and> GET \<in> set (methods_of p) then view e GET p r d
             else if m \<notin> set (methods_of p) then (abort 405, d)
             else view e m p r d)
      in if m = HEAD
         then (case answer of ((status, b), d') \<Rightarrow> ((status, VNone), d'))
         else answer)"

text \<open>
  A store between two requests: no change is pending, and every id is below the next
  value of the generator.
\<close>

definition store_ok :: "db \<Rightarrow> bool" where
  "store_ok d = (pending d = [] \<and> list_all (\<lambda>r. qid r < id_seq d) (questions d))"

text \<open>The stores a sequence of requests goes through, the first one included.\<close>

fun states :: "(env \<times> request) list \<Rightarrow> db \<Rightarrow> db list" where
  "states [] d = [d]"
| "states ((e, r) # steps) d = d # states steps (snd (app e r d))"

section \<open>Concrete inputs\<close>

text \<open>Decimal notation with an optional sign: the part of Python's \<^verbatim>\<open>int\<close> used below.\<close>

definition digit_of :: "char \<Rightarrow> nat option" where
  "digit_of c =
     (if 48 \<le> (of_char c :: nat) \<and> (of_char c :: nat) \<le> 57
      then Some ((of_char c :: nat) - 48) else None)"

fun decimal_nat :: "nat \<Rightarrow> string \<Rightarrow> nat option" where
  "decimal_nat acc [] = Some acc"
| "decimal_nat acc (c # cs) =
     (case digit_of c of None \<Rightarrow> None | Some v \<Rightarrow> decimal_nat (10 * acc + v) cs)"

definition decimal :: "string \<Rightarrow> int option" where
  "decimal s =
     (case s of
        [] \<Rightarrow> None
      | c # cs \<Rightarrow>
          if c = CHR ''-'' then (if cs = [] then None else map_option (\<lambda>n. - int n) (decimal_nat 0 cs))
          else if c = CHR ''+'' then (if cs = [] then None else map_option int (decimal_nat 0 cs))
          else map_option int (decimal_nat 0 s))"

text \<open>
  An environment to evaluate the handlers in: integers are read in decimal notation, the
  first element is drawn, no storage call raises of its own, and the database refuses
  every value that is not of the column's type. The inputs evaluated format strings
  only, so \<open>py_str\<close> is never applied.
\<close>

definition strict_env :: env where
  "strict_env =
     \<lparr>py_int = decimal, py_str = (\<lambda>v. ''''), randbelow = (\<lambda>n. 0), raises = (\<lambda>c. False),
      untyped_select = (\<lambda>c vs. None), untyped_insert = (\<lambda>q a c df. None)\<rparr>"

text \<open>The same environment with a commit that raises.\<close>

definition failing_commit_env :: env where
  "failing_commit_env = strict_env\<lparr>raises := (\<lambda>c. c = Commit)\<rparr>"

text \<open>Bodies for \<^verbatim>\<open>POST /questions\<close>, after the test suite.\<close>

definition taco_body :: pyval where
  "taco_body = VDict
     [(VStr ''question'', VStr ''What day is Taco Tuesday?''),
      (VStr ''answer'', VStr ''Tuesday''),
      (VStr ''category'', VInt 3),
      (VStr ''difficulty'', VInt 2)]"

definition taco_body_nested :: pyval where
  "taco_body_nested = VDict
     [(VStr ''question'', VStr ''What day is Taco Tuesday?''),
      (VStr ''answer'', VStr ''Tuesday''),
      (VStr ''category'', VInt 3),
      (VStr ''difficulty'', VDict [(VStr ''level'', VInt 2)])]"

definition taco_body_no_difficulty :: pyval where
  "taco_body_no_difficulty = VDict
     [(VStr ''question'', VStr ''What day is Taco Tuesday?''),
      (VStr ''answer'', VStr ''Tuesday''),
      (VStr ''category'', VInt 3)]"

text \<open>A small store with questions of several categories.\<close>

definition quiz_db :: db where
  "quiz_db =
     \<lparr>questions =
        [\<lparr>qid = 5, question = ''Whose autobiography is it?'', answer = ''Maya Angelou'',
          category = 4, difficulty = 2\<rparr>,
         \<lparr>qid = 6, question = ''What was the Title of the film?'', answer = ''Edward Scissorhands'',
          category = 5, difficulty = 3\<rparr>,
         \<lparr>qid = 20, question = ''What is the heaviest organ?'', answer = ''The Liver'',
          category = 1, difficulty = 4\<rparr>,
         \<lparr>qid = 21, question = ''Who discovered penicillin?'', answer = ''Alexander Fleming'',
          category = 1, difficulty = 3\<rparr>],
      categories =
        [\<lparr>cat_id = 1, cat_type = ''Science''\<rparr>, \<lparr>cat_id = 4, cat_type = ''History''\<rparr>,
         \<lparr>cat_id = 5, cat_type = ''Entertainment''\<rparr>],
      id_seq = 22, pending = [], calls = []\<rparr>"

text \<open>Bodies for \<^verbatim>\<open>POST /quizzes\<close>: the test suite's, and a first round over all
  categories.\<close>

definition quiz_body :: pyval where
  "quiz_body = VDict
     [(VStr ''quiz_category'', VDict [(VStr ''id'', VInt 1), (VStr ''type'', VStr ''Science'')]),
      (VStr ''previous_questions'', VList [VInt 5, VInt 9, VInt 13])]"



text \<open>A store of \<open>n\<close> questions with the ids 1 to \<open>n\<close>, after the test suite's data.\<close>

definition trivia_question :: "nat \<Rightarrow> question_row" where
  "trivia_question i =
     \<lparr>qid = int i, question = ''What day is Taco Tuesday?'', answer = ''Tuesday'',
      category = 3, difficulty = 2\<rparr>"

definition trivia_db :: "nat \<Rightarrow> db" where
  "trivia_db n =
     \<lparr>questions = map trivia_question [1..<Suc n],
      categories = [\<lparr>cat_id = 1, cat_type = ''Science''\<rparr>, \<lparr>cat_id = 3, cat_type = ''Geography''\<rparr>],
      id_seq = int n + 1, pending = [], calls = []\<rparr>"

section \<open>Pagination\<close>

lemma abort_404: "abort 404 = (404, VDict [(VStr ''success'', VBool False), (VStr ''error'', VInt 404), (VStr ''message'', VStr ''resource not found!'')])"
  by (simp add: abort_def not_found_def envelope_def)

lemma py_slice_page:
  assumes "0 \<le> start"
  shows "py_slice xs start (start + 10) = take 10 (drop (nat start) xs)"
proof (cases "int (length xs) \<le> start")
  case True
  then show ?thesis using assms by (simp add: py_slice_def Let_def min_def)
next
  case False
  show ?thesis
  proof (cases "start + 10 \<le> int (length xs)")
    case True
    then show ?thesis using assms False by (simp add: py_slice_def Let_def min_def)
  next
    case over: False
    have "length (drop (nat start) xs) \<le> 10" using over assms by simp
    then have "take 10 (drop (nat start) xs) = drop (nat start) xs" by simp
    moreover have "take (nat (int (length xs) - start)) (drop (nat start) xs) = drop (nat start) xs"
      using assms by simp
    ultimately show ?thesis using assms False over by (simp add: py_slice_def Let_def min_def)
  qed
qed

lemma py_slice_page_zero: "py_slice xs (- 10) 0 = []"
  by (simp add: py_slice_def Let_def)

lemma categories_dict_distinct_aux:
  "distinct (map fst acc @ map (\<lambda>c. VInt (cat_id c)) cats) \<Longrightarrow>
   foldl (\<lambda>d c. AList.update (VInt (cat_id c)) (VStr (cat_type c)) d) acc cats
     = acc @ map (\<lambda>c. (VInt (cat_id c), VStr (cat_type c))) cats"
proof (induction cats arbitrary: acc)
  case Nil
  then show ?case by simp
next
  case (Cons c cats)
  have notin: "VInt (cat_id c) \<notin> fst ` set acc" using Cons.prems by auto
  have upd: "AList.update (VInt (cat_id c)) (VStr (cat_type c)) acc = acc @ [(VInt (cat_id c), VStr (cat_type c))]"
    using notin by (induction acc) auto
  have "distinct (map fst (acc @ [(VInt (cat_id c), VStr (cat_type c))]) @ map (\<lambda>c. VInt (cat_id c)) cats)"
    using Cons.prems by auto
  from Cons.IH[OF this] show ?case by (simp add: upd)
qed

lemma categories_dict_distinct:
  "distinct (map cat_id cats) \<Longrightarrow>
   categories_dict cats = map (\<lambda>c. (VInt (cat_id c), VStr (cat_type c))) cats"
proof -
  assume "distinct (map cat_id cats)"
  then have "distinct (map (\<lambda>c. VInt (cat_id c)) cats)"
    by (simp add: distinct_map inj_on_def)
  then show ?thesis
    using categories_dict_distinct_aux[of "[]" cats] by (simp add: categories_dict_def)
qed

lemma py_slice_negative_page:
  assumes "1 \<le> k"
  shows "py_slice xs (- (10 * int k) - 10) (- (10 * int k))
           = drop (length xs - (10 * k + 10)) (take (length xs - 10 * k) xs)"
proof -
  have a: "nat (max (- (10 * int k) - 10 + int (length xs)) 0) = length xs - (10 * k + 10)"
    by (simp add: max_def) linarith
  have b: "nat (max (- (10 * int k) + int (length xs)) 0 - max (- (10 * int k) - 10 + int (length xs)) 0)
            = (length xs - 10 * k) - (length xs - (10 * k + 10))"
    by (simp add: max_def) linarith
  have lt: "- (10 * int k) - 10 < 0" "- (10 * int k) < 0" using assms by auto
  show ?thesis
    unfolding py_slice_def Let_def using lt by (simp only: if_True a b drop_take)
qed

lemma get_questions_window:
  assumes "args_get args ''page'' 1 (py_int e) = p"
    and "py_slice (map format (questions d)) ((p - 1) * 10) ((p - 1) * 10 + 10) = w"
  shows "get_questions e args d =
     (if w = [] then abort 404
      else (200, VDict
           [(VStr ''success'', VBool True),
            (VStr ''questions'', VList w),
            (VStr ''total_questions'', VInt (int (length (questions d)))),
            (VStr ''current_category'', VNone),
            (VStr ''categories'', VDict (categories_dict (categories d)))]))"
  using assms
  by (simp add: get_questions_def paginate_questions_def QUESTIONS_PER_PAGE_def Let_def)

lemma page_arg: 
  "args_get [(''page'', ''2'')] ''page'' 1 (py_int strict_env) = 2"
  "args_get [(''page'', ''10000'')] ''page'' 1 (py_int strict_env) = 10000"
  "args_get [(''page'', ''0'')] ''page'' 1 (py_int strict_env) = 0"
  "args_get [(''page'', ''-1'')] ''page'' 1 (py_int strict_env) = - 1"
  by (simp_all add: args_get_def strict_env_def decimal_def digit_of_def)

text \<open>
  Claim C2. For every store and every requested page \<open>p \<ge> 1\<close> whose window is not
  empty, \<^verbatim>\<open>GET /questions\<close> answers 200 with the formatted questions at the positions
  \<open>10 * (p - 1)\<close> up to \<open>10 * p\<close> (at most ten of them), the number of all stored
  questions, \<^verbatim>\<open>current_category\<close> null, and the mapping from every category id to
  its type. Category ids are primary keys, hence distinct.
\<close>

theorem get_questions_page:
  assumes page: "args_get args ''page'' 1 (py_int e) = p"
    and p: "1 \<le> p"
    and window: "take 10 (drop (nat (10 * (p - 1))) (questions d)) \<noteq> []"
    and keys: "distinct (map cat_id (categories d))"
  shows "get_questions e args d =
           (200, VDict
             [(VStr ''success'', VBool True),
              (VStr ''questions'',
                 VList (take 10 (drop (nat (10 * (p - 1))) (map format (questions d))))),
              (VStr ''total_questions'', VInt (int (length (questions d)))),
              (VStr ''current_category'', VNone),
              (VStr ''categories'',
                 VDict (map (\<lambda>c. (VInt (cat_id c), VStr (cat_type c))) (categories d)))])
         \<and> length (take 10 (drop (nat (10 * (p - 1))) (map format (questions d)))) \<le> 10"
proof -
  have start: "0 \<le> (p - 1) * 10" using p by simp
  have w: "py_slice (map format (questions d)) ((p - 1) * 10) ((p - 1) * 10 + 10)
        = take 10 (drop (nat (10 * (p - 1))) (map format (questions d)))"
    using py_slice_page[OF start] by (simp add: mult.commute)
  have "take 10 (drop (nat (10 * (p - 1))) (map format (questions d)))
        = map format (take 10 (drop (nat (10 * (p - 1))) (questions d)))"
    by (simp add: take_map drop_map)
  then have ne: "take 10 (drop (nat (10 * (p - 1))) (map format (questions d))) \<noteq> []"
    using window by simp
  show ?thesis
    using ne by (simp add: get_questions_window[OF page w] categories_dict_distinct[OF keys])
qed

theorem get_questions_page_witness:
  "fst (get_questions strict_env [(''page'', ''2'')] (trivia_db 12)) = 200
   \<and> map_of (case snd (get_questions strict_env [(''page'', ''2'')] (trivia_db 12)) of VDict kvs \<Rightarrow> kvs)
        (VStr ''questions'') = Some (VList [format (trivia_question 11), format (trivia_question 12)])"
proof -
  have w: "take 10 (drop (nat (10 * (2 - 1))) (questions (trivia_db 12))) \<noteq> []"
    by (simp add: trivia_db_def)
  have k: "distinct (map cat_id (categories (trivia_db 12)))"
    by (simp add: trivia_db_def)
  have qs: "take 10 (drop 10 (map format (questions (trivia_db 12)))) = [format (trivia_question 11), format (trivia_question 12)]"
    by (simp add: trivia_db_def trivia_question_def upt_rec drop_map take_map)
  show ?thesis
    using get_questions_page[OF page_arg(1) _ w k] qs by simp
qed

text \<open>
  Claim C3. Whenever the window of the requested page is empty, in particular when the
  store holds no question or the page lies beyond the last one,
  \<^verbatim>\<open>GET /questions\<close> answers 404 with \<^verbatim>\<open>success\<close> false.
\<close>

theorem get_questions_empty_window:
  assumes page: "args_get args ''page'' 1 (py_int e) = p"
    and empty: "py_slice (questions d) (10 * (p - 1)) (10 * p) = []
                \<or> questions d = []
                \<or> int (length (questions d)) \<le> 10 * (p - 1)"
  shows "get_questions e args d =
           (404, VDict
             [(VStr ''success'', VBool False),
              (VStr ''error'', VInt 404),
              (VStr ''message'', VStr ''resource not found!'')])"
proof -
  have eq: "10 * p = (p - 1) * 10 + 10" "10 * (p - 1) = (p - 1) * 10" by simp_all
  have "py_slice (questions d) (10 * (p - 1)) (10 * p) = []"
    using empty by (auto simp: py_slice_def Let_def min_def max_def)
  then have "length (py_slice (questions d) ((p - 1) * 10) ((p - 1) * 10 + 10)) = 0"
    by (simp only: eq list.size)
  then have "length (py_slice (map format (questions d)) ((p - 1) * 10) ((p - 1) * 10 + 10)) = 0"
    by (simp only: py_slice_def Let_def length_map length_take length_drop)
  then have w: "py_slice (map format (questions d)) ((p - 1) * 10) ((p - 1) * 10 + 10) = []"
    by (simp only: length_0_conv)
  show ?thesis
    by (simp add: get_questions_window[OF page w] abort_404)
qed

theorem get_questions_empty_window_witness:
  "get_questions strict_env [(''page'', ''10000'')] (trivia_db 12) =
     (404, VDict [(VStr ''success'', VBool False), (VStr ''error'', VInt 404),
                  (VStr ''message'', VStr ''resource not found!'')])"
proof -
  have "int (length (questions (trivia_db 12))) \<le> 10 * (10000 - 1)"
    by (simp add: trivia_db_def)
  then show ?thesis
    using get_questions_empty_window[OF page_arg(2)] by blast
qed

text \<open>
  Claim C9. Page 0 always answers 404: the slice runs from \<open>-10\<close> to \<open>0\<close>. A
  negative page \<open>p\<close> is sliced with negative indices, which count from the end of
  the list: when the store holds more than \<open>10 * (- p)\<close> questions the answer is 200
  with the questions at the positions \<open>len - 10 * (- p) - 10\<close> (or 0 if that is
  negative) up to \<open>len - 10 * (- p)\<close>; for page \<open>-1\<close> these are the positions
  \<open>len - 20\<close> up to \<open>len - 10\<close>.
\<close>

theorem get_questions_nonpositive_page:
  assumes page: "args_get args ''page'' 1 (py_int e) = p"
    and p: "p \<le> 0"
  shows "get_questions e args d =
           (if p = 0 \<or> length (questions d) \<le> 10 * nat (- p)
            then (404, VDict
                   [(VStr ''success'', VBool False),
                    (VStr ''error'', VInt 404),
                    (VStr ''message'', VStr ''resource not found!'')])
            else (200, VDict
                   [(VStr ''success'', VBool True),
                    (VStr ''questions'',
                       VList (drop (length (questions d) - (10 * nat (- p) + 10))
                                (take (length (questions d) - 10 * nat (- p))
                                   (map format (questions d))))),
                    (VStr ''total_questions'', VInt (int (length (questions d)))),
                    (VStr ''current_category'', VNone),
                    (VStr ''categories'', VDict (categories_dict (categories d)))]))"
proof (cases "p = 0")
  case True
  have w: "py_slice (map format (questions d)) ((p - 1) * 10) ((p - 1) * 10 + 10) = []"
    using True py_slice_page_zero[of "map format (questions d)"] by simp
  show ?thesis
    using True by (simp add: get_questions_window[OF page w] abort_404)
next
  case False
  define k where "k = nat (- p)"
  have k: "1 \<le> k" "p = - int k" using False p by (auto simp: k_def)
  have eq: "(p - 1) * 10 = - (10 * int k) - 10" "(p - 1) * 10 + 10 = - (10 * int k)"
    using k by simp_all
  have w: "py_slice (map format (questions d)) ((p - 1) * 10) ((p - 1) * 10 + 10)
        = drop (length (questions d) - (10 * k + 10)) (take (length (questions d) - 10 * k) (map format (questions d)))"
    unfolding eq using py_slice_negative_page[OF k(1), of "map format (questions d)"] by simp
  have ne: "drop (length (questions d) - (10 * k + 10)) (take (length (questions d) - 10 * k) (map format (questions d))) = []
        \<longleftrightarrow> length (questions d) \<le> 10 * k"
    by auto
  show ?thesis
    using False ne by (simp add: get_questions_window[OF page w] abort_404 k_def[symmetric])
qed

theorem get_questions_nonpositive_page_witness:
  "fst (get_questions strict_env [(''page'', ''0'')] (trivia_db 12)) = 404
   \<and> get_questions strict_env [(''page'', ''-1'')] (trivia_db 12) =
       (200, VDict
          [(VStr ''success'', VBool True),
           (VStr ''questions'', VList [format (trivia_question 1), format (trivia_question 2)]),
           (VStr ''total_questions'', VInt 12),
           (VStr ''current_category'', VNone),
           (VStr ''categories'', VDict [(VInt 1, VStr ''Science''), (VInt 3, VStr ''Geography'')])])"
proof -
  have z: "(0::int) \<le> 0" and m: "(- 1::int) \<le> 0" by simp_all
  have a: "fst (get_questions strict_env [(''page'', ''0'')] (trivia_db 12)) = 404"
    using get_questions_nonpositive_page[OF page_arg(3) z, of "trivia_db 12"] by simp
  have qs: "drop (12 - 20) (take (12 - 10) (map format (questions (trivia_db 12))))
            = [format (trivia_question 1), format (trivia_question 2)]"
    by (simp add: trivia_db_def trivia_question_def upt_rec take_map)
  have b: "get_questions strict_env [(''page'', ''-1'')] (trivia_db 12) =
       (200, VDict
          [(VStr ''success'', VBool True),
           (VStr ''questions'', VList [format (trivia_question 1), format (trivia_question 2)]),
           (VStr ''total_questions'', VInt 12),
           (VStr ''current_category'', VNone),
           (VStr ''categories'', VDict [(VInt 1, VStr ''Science''), (VInt 3, VStr ''Geography'')])])"
    using get_questions_nonpositive_page[OF page_arg(4) m, of "trivia_db 12"] qs
    by (simp add: trivia_db_def categories_dict_def)
  show ?thesis using a b by simp
qed

text \<open>
  Claim C10. When the \<^verbatim>\<open>page\<close> parameter is absent or is not read as an integer,
  \<^verbatim>\<open>GET /questions\<close> does not answer with an error of its own: it serves page 1, the
  first ten questions (404 only when the store is empty), which is the answer to
  \<^verbatim>\<open>page=1\<close>.
\<close>

theorem get_questions_default_page:
  assumes "map_of args ''page'' = None \<or> (\<exists>s. map_of args ''page'' = Some s \<and> py_int e s = None)"
    and "py_int e one = Some 1"
  shows "get_questions e args d = get_questions e [(''page'', one)] d
       \<and> get_questions e args d =
           (if questions d = []
            then (404, VDict
                   [(VStr ''success'', VBool False),
                    (VStr ''error'', VInt 404),
                    (VStr ''message'', VStr ''resource not found!'')])
            else (200, VDict
                   [(VStr ''success'', VBool True),
                    (VStr ''questions'', VList (take 10 (map format (questions d)))),
                    (VStr ''total_questions'', VInt (int (length (questions d)))),
                    (VStr ''current_category'', VNone),
                    (VStr ''categories'', VDict (categories_dict (categories d)))]))"
proof -
  have p: "args_get args ''page'' 1 (py_int e) = 1"
    using assms(1) by (auto simp: args_get_def)
  have q: "args_get [(''page'', one)] ''page'' 1 (py_int e) = 1"
    using assms(2) by (simp add: args_get_def)
  have w: "py_slice (map format (questions d)) ((1 - 1) * 10) ((1 - 1) * 10 + 10)
             = take 10 (map format (questions d))"
    using py_slice_page[of 0 "map format (questions d)"] by simp
  have same: "get_questions e args d = get_questions e [(''page'', one)] d"
    using p q by (simp add: get_questions_def paginate_questions_def Let_def)
  have answer: "get_questions e args d =
           (if questions d = []
            then (404, VDict
                   [(VStr ''success'', VBool False),
                    (VStr ''error'', VInt 404),
                    (VStr ''message'', VStr ''resource not found!'')])
            else (200, VDict
                   [(VStr ''success'', VBool True),
                    (VStr ''questions'', VList (take 10 (map format (questions d)))),
                    (VStr ''total_questions'', VInt (int (length (questions d)))),
                    (VStr ''current_category'', VNone),
                    (VStr ''categories'', VDict (categories_dict (categories d)))]))"
    by (simp add: get_questions_window[OF p w] abort_404)
  show ?thesis by (intro conjI same answer)
qed

theorem get_questions_default_page_witness:
  "get_questions strict_env [(''page'', ''abc'')] (trivia_db 12)
     = get_questions strict_env [(''page'', ''1'')] (trivia_db 12)
   \<and> get_questions strict_env [(''page'', ''abc'')] (trivia_db 12) =
       (200, VDict
          [(VStr ''success'', VBool True),
           (VStr ''questions'', VList (take 10 (map format (questions (trivia_db 12))))),
           (VStr ''total_questions'', VInt 12),
           (VStr ''current_category'', VNone),
           (VStr ''categories'', VDict [(VInt 1, VStr ''Science''), (VInt 3, VStr ''Geography'')])])
   \<and> get_questions strict_env [] (trivia_db 12)
     = get_questions strict_env [(''page'', ''1'')] (trivia_db 12)"
proof -
  have one: "py_int strict_env ''1'' = Some 1"
    by (simp add: strict_env_def decimal_def digit_of_def)
  have abc: "map_of [(''page'', ''abc'')] ''page'' = None
             \<or> (\<exists>s. map_of [(''page'', ''abc'')] ''page'' = Some s \<and> py_int strict_env s = None)"
    by (simp add: strict_env_def decimal_def digit_of_def)
  have absent: "map_of ([] :: (string \<times> string) list) ''page'' = None
             \<or> (\<exists>s. map_of ([] :: (string \<times> string) list) ''page'' = Some s \<and> py_int strict_env s = None)"
    by simp
  have ne: "questions (trivia_db 12) \<noteq> []" "length (questions (trivia_db 12)) = 12"
    "categories_dict (categories (trivia_db 12)) = [(VInt 1, VStr ''Science''), (VInt 3, VStr ''Geography'')]"
    by (simp_all add: trivia_db_def categories_dict_def)
  note a = get_questions_default_page[OF abc one, of "trivia_db 12"]
  note b = get_questions_default_page[OF absent one, of "trivia_db 12"]
  have 2: "get_questions strict_env [(''page'', ''abc'')] (trivia_db 12) =
       (200, VDict
          [(VStr ''success'', VBool True),
           (VStr ''questions'', VList (take 10 (map format (questions (trivia_db 12))))),
           (VStr ''total_questions'', VInt 12),
           (VStr ''current_category'', VNone),
           (VStr ''categories'', VDict [(VInt 1, VStr ''Science''), (VInt 3, VStr ''Geography'')])])"
    using a[THEN conjunct2] ne by simp
  show ?thesis by (intro conjI a[THEN conjunct1] 2 b[THEN conjunct1])
qed

section \<open>Methods that are not allowed\<close>

text \<open>
  Claim C8, as amended. A request with a method that no rule of its path declares is
  answered by the handler of 405, which returns the envelope with \<^verbatim>\<open>success\<close> false,
  error 405 and a message, and no status: the response has status 200. Its body is that
  envelope, except for a \<^verbatim>\<open>HEAD\<close> request, whose response has no body.
\<close>

theorem method_not_allowed_status:
  assumes "req_path r \<noteq> OtherPath"
    and "req_method r \<noteq> OPTIONS"
    and "req_method r \<notin> set (methods_of (req_path r))"
    and "req_method r = HEAD \<longrightarrow> GET \<notin> set (methods_of (req_path r))"
  shows "app e r d =
           ((200,
             if req_method r = HEAD then VNone
             else VDict
              [(VStr ''success'', VBool False),
               (VStr ''error'', VInt 405),
               (VStr ''message'', VStr ''method not allowed!'')]), d)"
  using assms by (simp add: app_def Let_def abort_def not_allowed_def envelope_def)

theorem method_not_allowed_status_witness:
  "app strict_env
     \<lparr>req_method = PUT, req_path = Questions, req_args = [], req_json = VNone\<rparr> (trivia_db 12) =
     ((200, VDict
        [(VStr ''success'', VBool False),
         (VStr ''error'', VInt 405),
         (VStr ''message'', VStr ''method not allowed!'')]), trivia_db 12)
   \<and> fst (fst (app strict_env
        \<lparr>req_method = HEAD, req_path = Quizzes, req_args = [], req_json = VNone\<rparr> (trivia_db 12))) = 200"
proof -
  have 1: "app strict_env
     \<lparr>req_method = PUT, req_path = Questions, req_args = [], req_json = VNone\<rparr> (trivia_db 12) =
     ((200, VDict
        [(VStr ''success'', VBool False),
         (VStr ''error'', VInt 405),
         (VStr ''message'', VStr ''method not allowed!'')]), trivia_db 12)"
    using method_not_allowed_status[of "\<lparr>req_method = PUT, req_path = Questions, req_args = [], req_json = VNone\<rparr>" strict_env "trivia_db 12"]
    by simp
  have 2: "fst (fst (app strict_env
        \<lparr>req_method = HEAD, req_path = Quizzes, req_args = [], req_json = VNone\<rparr> (trivia_db 12))) = 200"
    using method_not_allowed_status[of "\<lparr>req_method = HEAD, req_path = Quizzes, req_args = [], req_json = VNone\<rparr>" strict_env "trivia_db 12"]
    by simp
  show ?thesis by (intro conjI 1 2)
qed

text \<open>
  The claim C8 as stated fails for \<^verbatim>\<open>HEAD\<close>: \<^verbatim>\<open>/quizzes\<close> declares \<^verbatim>\<open>POST\<close> only,
  so a \<^verbatim>\<open>HEAD\<close> request for it is answered by the handler of 405, and the body of the
  response is not the envelope: there is none.
\<close>

theorem method_not_allowed_head_counterexample:
  "HEAD \<notin> set (methods_of Quizzes) \<and> GET \<notin> set (methods_of Quizzes)
   \<and> app strict_env
        \<lparr>req_method = HEAD, req_path = Quizzes, req_args = [], req_json = VNone\<rparr> quiz_db
       = ((200, VNone), quiz_db)"
  by (simp add: app_def Let_def abort_def not_allowed_def)

section \<open>Deleting a question\<close>

lemma apply_change_frame:
  "apply_change e c d = Some d' \<Longrightarrow>
   calls d' = calls d \<and> pending d' = pending d \<and> categories d' = categories d"
  by (cases c) (auto split: option.splits)

lemma apply_changes_frame:
  "apply_changes e cs d = Some d' \<Longrightarrow>
   calls d' = calls d \<and> pending d' = pending d \<and> categories d' = categories d"
proof (induction cs arbitrary: d)
  case Nil
  then show ?case by simp
next
  case (Cons c cs)
  then obtain d1 where 1: "apply_change e c d = Some d1" and 2: "apply_changes e cs d1 = Some d'"
    by (auto split: option.splits)
  show ?case using apply_change_frame[OF 1] Cons.IH[OF 2] by simp
qed

lemma session_commit_calls:
  "session_commit e d = (r, d') \<Longrightarrow> calls d' = calls d @ [Commit]"
  by (auto simp: session_commit_def Let_def split: if_splits option.splits dest: apply_changes_frame)

lemma session_commit_fail:
  "session_commit e d = (Inl x, d') \<Longrightarrow> d' = d\<lparr>calls := calls d @ [Commit]\<rparr>"
  by (auto simp: session_commit_def Let_def split: if_splits option.splits)

lemma session_commit_single_del:
  "\<not> raises e Commit \<Longrightarrow> pending d = [Del i] \<Longrightarrow>
   session_commit e d = (Inr (), d\<lparr>questions := [q \<leftarrow> questions d. qid q \<noteq> i], pending := [], calls := calls d @ [Commit]\<rparr>)"
  by (simp add: session_commit_def Let_def)

lemma delete_question_try_fail:
  assumes "delete_question_try e i d = (Inl x, d1)"
  shows "questions d1 = questions d \<and> id_seq d1 = id_seq d \<and> categories d1 = categories d
         \<and> (\<exists>cs. calls d1 = calls d @ cs)"
  using assms
  by (auto simp: delete_question_try_def query_get_def session_delete_def Let_def
           dest!: session_commit_fail
           split: if_splits option.splits sum.splits prod.splits)

lemma delete_question_try_raises:
  assumes "raises e Lookup \<or> raises e Delete \<or> raises e Commit"
  shows "\<exists>x d1. delete_question_try e i d = (Inl x, d1)"
  using assms
  by (auto simp: delete_question_try_def query_get_def session_delete_def session_commit_def Let_def
           split: if_splits option.splits sum.splits prod.splits)

lemma delete_question_try_missing:
  assumes "\<forall>q\<in>set (questions d). qid q \<noteq> int i"
  shows "\<exists>x. delete_question_try e i d = (Inl x, d)"
proof -
  have "find (\<lambda>q. qid q = int i) (questions d) = None"
    using assms by (simp add: find_None_iff)
  then show ?thesis
    by (simp add: delete_question_try_def query_get_def)
qed

lemma delete_question_try_ok:
  assumes ex: "\<exists>q\<in>set (questions d). qid q = int i"
    and ok: "\<not> raises e Lookup" "\<not> raises e Delete" "\<not> raises e Commit"
    and clean: "pending d = []"
  shows "delete_question_try e i d =
           (Inr (200, VDict [(VStr ''success'', VBool True), (VStr ''deleted'', VInt (int i))]),
            d\<lparr>questions := [q \<leftarrow> questions d. qid q \<noteq> int i], pending := [],
              calls := calls d @ [Delete, Commit]\<rparr>)"
proof -
  obtain row where row: "find (\<lambda>q. qid q = int i) (questions d) = Some row"
    using ex by (cases "find (\<lambda>q. qid q = int i) (questions d)") (auto simp: find_None_iff)
  then have id: "qid row = int i" by (auto simp: find_Some_iff)
  have del: "session_delete e row d = (Inr (), d\<lparr>calls := calls d @ [Delete], pending := [Del (int i)]\<rparr>)"
    using ok(2) clean by (simp add: session_delete_def Let_def id)
  have com: "session_commit e (d\<lparr>calls := calls d @ [Delete], pending := [Del (int i)]\<rparr>)
     = (Inr (), d\<lparr>questions := [q \<leftarrow> questions d. qid q \<noteq> int i], pending := [],
              calls := calls d @ [Delete, Commit]\<rparr>)"
    using ok(3) by (simp add: session_commit_def Let_def)
  show ?thesis
    using ok(1) by (simp add: delete_question_try_def query_get_def row del com)
qed

lemma delete_question_closes:
  "\<exists>cs. calls (snd (delete_question e i d)) = calls d @ cs @ [Close]"
proof (cases "delete_question_try e i d")
  case (Pair r d1)
  have ext: "\<exists>cs. calls d1 = calls d @ cs"
  proof (cases r)
    case (Inl x)
    then show ?thesis using delete_question_try_fail Pair by blast
  next
    case (Inr resp)
    then show ?thesis using Pair
      by (auto simp: delete_question_try_def query_get_def session_delete_def Let_def
           split: if_splits option.splits sum.splits prod.splits dest!: session_commit_calls)
  qed
  then obtain cs where cs: "calls d1 = calls d @ cs" by blast
  show ?thesis
  proof (cases r)
    case (Inl x)
    then have "calls (snd (delete_question e i d)) = calls d @ (cs @ [Rollback]) @ [Close]"
      using Pair cs by (simp add: delete_question_def session_close_def session_rollback_def)
    then show ?thesis by blast
  next
    case (Inr resp)
    then have "calls (snd (delete_question e i d)) = calls d @ cs @ [Close]"
      using Pair cs by (simp add: delete_question_def session_close_def)
    then show ?thesis by blast
  qed
qed

lemma delete_question_fail:
  assumes "delete_question_try e i d = (Inl x, d1)"
  shows "fst (delete_question e i d) = abort 404
       \<and> questions (snd (delete_question e i d)) = questions d
       \<and> (\<exists>cs. calls (snd (delete_question e i d)) = calls d @ cs @ [Rollback, Close])"
proof -
  from delete_question_try_fail[OF assms] obtain cs where
    q: "questions d1 = questions d" and cs: "calls d1 = calls d @ cs" by blast
  show ?thesis
    using assms q cs by (simp add: delete_question_def session_close_def session_rollback_def)
qed

lemma delete_question_clears_pending: "pending (snd (delete_question e i d)) = []"
    by (simp add: delete_question_def session_close_def split: prod.splits sum.splits)

lemma trivia_db_ids: "qid ` set (questions (trivia_db n)) = int ` {1..n}"
  by (auto simp: trivia_db_def trivia_question_def image_image)

lemma delete_question_missing: "(\<forall>q\<in>set (questions d). qid q \<noteq> int i) \<longrightarrow>
      fst (delete_question e i d) =
        (404, VDict [(VStr ''success'', VBool False), (VStr ''error'', VInt 404),
                     (VStr ''message'', VStr ''resource not found!'')])
      \<and> questions (snd (delete_question e i d)) = questions d"
proof
  assume "\<forall>q\<in>set (questions d). qid q \<noteq> int i"
  then obtain x where "delete_question_try e i d = (Inl x, d)"
    using delete_question_try_missing by blast
  from delete_question_fail[OF this] show "fst (delete_question e i d) =
        (404, VDict [(VStr ''success'', VBool False), (VStr ''error'', VInt 404),
                     (VStr ''message'', VStr ''resource not found!'')])
      \<and> questions (snd (delete_question e i d)) = questions d"
    by (simp add: abort_404)
qed

lemma delete_question_caught: "(\<exists>x d1. delete_question_try e i d = (Inl x, d1)) \<longrightarrow>
      fst (delete_question e i d) =
        (404, VDict [(VStr ''success'', VBool False), (VStr ''error'', VInt 404),
                     (VStr ''message'', VStr ''resource not found!'')])
      \<and> questions (snd (delete_question e i d)) = questions d
      \<and> (\<exists>cs. calls (snd (delete_question e i d)) = calls d @ cs @ [Rollback, Close])"
proof
  assume "\<exists>x d1. delete_question_try e i d = (Inl x, d1)"
  then obtain x d1 where "delete_question_try e i d = (Inl x, d1)" by blast
  from delete_question_fail[OF this] show "fst (delete_question e i d) =
        (404, VDict [(VStr ''success'', VBool False), (VStr ''error'', VInt 404),
                     (VStr ''message'', VStr ''resource not found!'')])
      \<and> questions (snd (delete_question e i d)) = questions d
      \<and> (\<exists>cs. calls (snd (delete_question e i d)) = calls d @ cs @ [Rollback, Close])"
    by (simp only: abort_404) 
qed

lemma delete_question_ok: "(\<exists>q\<in>set (questions d). qid q = int i) \<and> pending d = []
        \<and> \<not> raises e Lookup \<and> \<not> raises e Delete \<and> \<not> raises e Commit \<longrightarrow>
      fst (delete_question e i d) =
        (200, VDict [(VStr ''success'', VBool True), (VStr ''deleted'', VInt (int i))])
      \<and> questions (snd (delete_question e i d)) = [q \<leftarrow> questions d. qid q \<noteq> int i]
      \<and> (\<forall>q\<in>set (questions (snd (delete_question e i d))). qid q \<noteq> int i)"
  proof
    assume h: "(\<exists>q\<in>set (questions d). qid q = int i) \<and> pending d = []
        \<and> \<not> raises e Lookup \<and> \<not> raises e Delete \<and> \<not> raises e Commit"
    have "delete_question_try e i d =
           (Inr (200, VDict [(VStr ''success'', VBool True), (VStr ''deleted'', VInt (int i))]),
            d\<lparr>questions := [q \<leftarrow> questions d. qid q \<noteq> int i], pending := [],
              calls := calls d @ [Delete, Commit]\<rparr>)"
      using h delete_question_try_ok by blast
    then show "fst (delete_question e i d) =
        (200, VDict [(VStr ''success'', VBool True), (VStr ''deleted'', VInt (int i))])
      \<and> questions (snd (delete_question e i d)) = [q \<leftarrow> questions d. qid q \<noteq> int i]
      \<and> (\<forall>q\<in>set (questions (snd (delete_question e i d))). qid q \<noteq> int i)"
      by (simp add: delete_question_def session_close_def)
  qed

text \<open>
  Claim C4. \<^verbatim>\<open>DELETE /questions/{id}\<close> answers 404 when no question has that id.
  When the question exists and lookup, delete and commit succeed, it answers 200 with
  \<^verbatim>\<open>deleted\<close> equal to the id, and no question of that id is left in the store.
  Every exception raised in the \<^verbatim>\<open>try\<close>, in particular by the lookup, the delete
  or the commit, is answered 404, with the session rolled back and the store as it was.
  On every path the last session call is \<^verbatim>\<open>close\<close>, and no change stays pending.
\<close>

theorem delete_question_outcomes:
  "((\<forall>q\<in>set (questions d). qid q \<noteq> int i) \<longrightarrow>
      fst (delete_question e i d) =
        (404, VDict [(VStr ''success'', VBool False), (VStr ''error'', VInt 404),
                     (VStr ''message'', VStr ''resource not found!'')])
      \<and> questions (snd (delete_question e i d)) = questions d)
   \<and> ((\<exists>q\<in>set (questions d). qid q = int i) \<and> pending d = []
        \<and> \<not> raises e Lookup \<and> \<not> raises e Delete \<and> \<not> raises e Commit \<longrightarrow>
      fst (delete_question e i d) =
        (200, VDict [(VStr ''success'', VBool True), (VStr ''deleted'', VInt (int i))])
      \<and> questions (snd (delete_question e i d)) = [q \<leftarrow> questions d. qid q \<noteq> int i]
      \<and> (\<forall>q\<in>set (questions (snd (delete_question e i d))). qid q \<noteq> int i))
   \<and> (raises e Lookup \<or> raises e Delete \<or> raises e Commit \<longrightarrow>
        (\<exists>x d1. delete_question_try e i d = (Inl x, d1)))
   \<and> ((\<exists>x d1. delete_question_try e i d = (Inl x, d1)) \<longrightarrow>
      fst (delete_question e i d) =
        (404, VDict [(VStr ''success'', VBool False), (VStr ''error'', VInt 404),
                     (VStr ''message'', VStr ''resource not found!'')])
      \<and> questions (snd (delete_question e i d)) = questions d
      \<and> (\<exists>cs. calls (snd (delete_question e i d)) = calls d @ cs @ [Rollback, Close]))
   \<and> (\<exists>cs. calls (snd (delete_question e i d)) = calls d @ cs @ [Close])
   \<and> pending (snd (delete_question e i d)) = []"
proof (intro conjI)
  show "(\<forall>q\<in>set (questions d). qid q \<noteq> int i) \<longrightarrow>
      fst (delete_question e i d) =
        (404, VDict [(VStr ''success'', VBool False), (VStr ''error'', VInt 404),
                     (VStr ''message'', VStr ''resource not found!'')])
      \<and> questions (snd (delete_question e i d)) = questions d"
    by (rule delete_question_missing)
  show "(\<exists>q\<in>set (questions d). qid q = int i) \<and> pending d = []
        \<and> \<not> raises e Lookup \<and> \<not> raises e Delete \<and> \<not> raises e Commit \<longrightarrow>
      fst (delete_question e i d) =
        (200, VDict [(VStr ''success'', VBool True), (VStr ''deleted'', VInt (int i))])
      \<and> questions (snd (delete_question e i d)) = [q \<leftarrow> questions d. qid q \<noteq> int i]
      \<and> (\<forall>q\<in>set (questions (snd (delete_question e i d))). qid q \<noteq> int i)"
    by (rule delete_question_ok)
  show "raises e Lookup \<or> raises e Delete \<or> raises e Commit \<longrightarrow>
        (\<exists>x d1. delete_question_try e i d = (Inl x, d1))"
    by (rule impI) (rule delete_question_try_raises)
  show "(\<exists>x d1. delete_question_try e i d = (Inl x, d1)) \<longrightarrow>
      fst (delete_question e i d) =
        (404, VDict [(VStr ''success'', VBool False), (VStr ''error'', VInt 404),
                     (VStr ''message'', VStr ''resource not found!'')])
      \<and> questions (snd (delete_question e i d)) = questions d
      \<and> (\<exists>cs. calls (snd (delete_question e i d)) = calls d @ cs @ [Rollback, Close])"
    by (rule delete_question_caught)
  show "\<exists>cs. calls (snd (delete_question e i d)) = calls d @ cs @ [Close]"
    by (rule delete_question_closes)
  show "pending (snd (delete_question e i d)) = []"
    by (rule delete_question_clears_pending)
qed

theorem delete_question_outcomes_witness:
  "fst (delete_question strict_env 5 (trivia_db 12)) =
      (200, VDict [(VStr ''success'', VBool True), (VStr ''deleted'', VInt 5)])
   \<and> 5 \<notin> qid ` set (questions (snd (delete_question strict_env 5 (trivia_db 12))))
   \<and> fst (fst (delete_question strict_env 100000 (trivia_db 12))) = 404
   \<and> fst (fst (delete_question failing_commit_env 5 (trivia_db 12))) = 404
   \<and> questions (snd (delete_question failing_commit_env 5 (trivia_db 12))) = questions (trivia_db 12)"
proof -
  have "int 5 \<in> qid ` set (questions (trivia_db 12))"
    unfolding trivia_db_ids by simp
  then have ex: "\<exists>q\<in>set (questions (trivia_db 12)). qid q = int 5"
    by (auto simp: image_iff)
  have clean: "pending (trivia_db 12) = []" by (simp add: trivia_db_def)
  have ok: "\<not> raises strict_env Lookup" "\<not> raises strict_env Delete" "\<not> raises strict_env Commit"
    by (simp_all add: strict_env_def)
  have h: "(\<exists>q\<in>set (questions (trivia_db 12)). qid q = int 5) \<and> pending (trivia_db 12) = []
        \<and> \<not> raises strict_env Lookup \<and> \<not> raises strict_env Delete \<and> \<not> raises strict_env Commit"
    by (intro conjI ex clean ok)
  have "int 100000 \<notin> qid ` set (questions (trivia_db 12))"
    unfolding trivia_db_ids by auto
  then have none: "\<forall>q\<in>set (questions (trivia_db 12)). qid q \<noteq> int 100000"
    by (auto simp: image_iff)
  have bad: "raises failing_commit_env Lookup \<or> raises failing_commit_env Delete \<or> raises failing_commit_env Commit"
    by (simp add: failing_commit_env_def)
  note a = delete_question_outcomes[of "trivia_db 12" 5 strict_env,
             THEN conjunct2, THEN conjunct1, THEN mp, OF h]
  note b = delete_question_outcomes[of "trivia_db 12" 100000 strict_env,
             THEN conjunct1, THEN mp, OF none]
  note c = delete_question_outcomes[of "trivia_db 12" 5 failing_commit_env,
             THEN conjunct2, THEN conjunct2, THEN conjunct1, THEN mp, OF bad]
  note c' = delete_question_outcomes[of "trivia_db 12" 5 failing_commit_env,
             THEN conjunct2, THEN conjunct2, THEN conjunct2, THEN conjunct1, THEN mp, OF c]
  have 1: "fst (delete_question strict_env 5 (trivia_db 12)) =
      (200, VDict [(VStr ''success'', VBool True), (VStr ''deleted'', VInt 5)])"
    using a[THEN conjunct1] by (simp only: of_nat_numeral)
  have "\<forall>q\<in>set (questions (snd (delete_question strict_env 5 (trivia_db 12)))). qid q \<noteq> 5"
    using a[THEN conjunct2, THEN conjunct2] by (simp only: of_nat_numeral)
  then have 2: "5 \<notin> qid ` set (questions (snd (delete_question strict_env 5 (trivia_db 12))))"
    by auto
  have 3: "fst (fst (delete_question strict_env 100000 (trivia_db 12))) = 404"
    by (simp only: b[THEN conjunct1] fst_conv)
  have 4: "fst (fst (delete_question failing_commit_env 5 (trivia_db 12))) = 404"
    by (simp only: c'[THEN conjunct1] fst_conv)
  have 5: "questions (snd (delete_question failing_commit_env 5 (trivia_db 12))) = questions (trivia_db 12)"
    by (rule c'[THEN conjunct2, THEN conjunct1])
  show ?thesis
    by (intro conjI 1 2 3 4 5)
qed

section \<open>Adding a question\<close>

lemma abort_400: "abort 400 = (400, VDict [(VStr ''success'', VBool False), (VStr ''error'', VInt 400), (VStr ''message'', VStr ''bad request!'')])"
  by (simp add: abort_def not_found_400_def envelope_def)

lemma abort_500: "abort 500 = (500, VDict [(VStr ''success'', VBool False), (VStr ''error'', VInt 500), (VStr ''message'', VStr ''internal server error!'')])"
  by (simp add: abort_def internal_server_error_def envelope_def)

lemma add_question_try_ok:
  assumes "\<not> raises e Add" "\<not> raises e Commit" "pending d = []"
    and "row_values e nq na nc nd = Some (q, a, c, df)"
  shows "add_question_try e nq na nc nd d =
     (Inr (201, VDict
            [(VStr ''success'', VBool True),
             (VStr ''created'', VInt (id_seq d)),
             (VStr ''question'', VStr q),
             (VStr ''answer'', VStr a),
             (VStr ''category'', VInt c),
             (VStr ''difficulty'', VInt df)]),
      d\<lparr>questions := questions d @
           [\<lparr>qid = id_seq d, question = q, answer = a, category = c, difficulty = df\<rparr>],
        id_seq := id_seq d + 1, pending := [], calls := calls d @ [Add, Commit]\<rparr>)"
  using assms
  by (simp add: add_question_try_def session_add_def session_commit_def Let_def)

lemma add_question_try_fail:
  assumes "add_question_try e nq na nc nd d = (Inl x, d1)"
  shows "questions d1 = questions d \<and> id_seq d1 = id_seq d"
  using assms
  by (auto simp: add_question_try_def session_add_def Let_def
           dest!: session_commit_fail
           split: if_splits prod.splits sum.splits)

lemma add_question_try_raises:
  assumes "raises e Add \<or> raises e Commit \<or> row_values e nq na nc nd = None"
    and "pending d = []"
  shows "\<exists>x d1. add_question_try e nq na nc nd d = (Inl x, d1)"
proof (cases "raises e Add")
  case True
  then show ?thesis by (simp add: add_question_try_def session_add_def Let_def)
next
  case False
  then have "raises e Commit \<or> row_values e nq na nc nd = None" using assms(1) by simp
  then show ?thesis
    using False assms(2)
    by (auto simp: add_question_try_def session_add_def session_commit_def Let_def)
qed

lemma add_question_fields:
  assumes "dict_get body ''question'' = Inr nq" "dict_get body ''answer'' = Inr na"
    "dict_get body ''category'' = Inr nc" "dict_get body ''difficulty'' = Inr nd"
  shows "add_question e body d =
     (if \<not> (truthy nq \<and> truthy na \<and> truthy nc \<and> truthy nd) then (abort 400, d)
      else (case add_question_try e nq na nc nd d of
                (Inr r, d1) \<Rightarrow> (r, session_close d1)
              | (Inl x, d1) \<Rightarrow> (abort 500, session_close (session_rollback d1))))"
  using assms by (simp add: add_question_def)

subsection \<open>The store between requests\<close>

text \<open>
  Every request leaves the session clean and the ids below the generator, and the
  generator never goes back: an id it hands out was never in the store before.
\<close>

lemma dict_get_dict: "dict_get body key = Inr v \<Longrightarrow> \<exists>v'. dict_get body key' = Inr v'"
  by (cases body) (auto split: option.splits)

lemma delete_question_try_done:
  assumes "delete_question_try e i d = (Inr r, d1)" and "pending d = []"
  shows "questions d1 = [q \<leftarrow> questions d. qid q \<noteq> int i] \<and> id_seq d1 = id_seq d"
  using assms
  by (auto simp: delete_question_try_def query_get_def session_delete_def session_commit_def Let_def
           find_Some_iff
           split: if_splits option.splits sum.splits prod.splits)



lemma add_question_try_done:
  assumes "add_question_try e nq na nc nd d = (Inr r, d1)" and "pending d = []"
  shows "\<exists>q a c df. questions d1 = questions d @
           [\<lparr>qid = id_seq d, question = q, answer = a, category = c, difficulty = df\<rparr>]
         \<and> id_seq d1 = id_seq d + 1"
  using assms
  by (auto simp: add_question_try_def session_add_def session_commit_def Let_def
           split: if_splits option.splits sum.splits prod.splits)

lemma delete_question_keeps_store_ok:
  assumes "store_ok d"
  shows "store_ok (snd (delete_question e i d)) \<and> id_seq (snd (delete_question e i d)) = id_seq d"
proof (cases "delete_question_try e i d")
  case (Pair res d1)
  show ?thesis
  proof (cases res)
    case (Inl x)
    then have "questions d1 = questions d \<and> id_seq d1 = id_seq d"
      using delete_question_try_fail Pair by blast
    then show ?thesis
      using assms Pair Inl
      by (simp add: delete_question_def store_ok_def session_close_def session_rollback_def)
  next
    case (Inr r)
    then have "questions d1 = [q \<leftarrow> questions d. qid q \<noteq> int i] \<and> id_seq d1 = id_seq d"
      using delete_question_try_done Pair assms by (simp add: store_ok_def)
    then show ?thesis
      using assms Pair Inr
      by (simp add: delete_question_def store_ok_def session_close_def list_all_iff)
  qed
qed

lemma add_question_keeps_store_ok:
  assumes "store_ok d"
  shows "store_ok (snd (add_question e body d)) \<and> id_seq d \<le> id_seq (snd (add_question e body d))"
proof (cases "dict_get body ''question''")
  case (Inl x)
  then have "snd (add_question e body d) = d"
    by (simp add: add_question_def)
  then show ?thesis using assms by simp
next
  case (Inr nq)
  obtain na where na: "dict_get body ''answer'' = Inr na" using dict_get_dict[OF Inr] by blast
  obtain nc where nc: "dict_get body ''category'' = Inr nc" using dict_get_dict[OF Inr] by blast
  obtain nd where nd: "dict_get body ''difficulty'' = Inr nd" using dict_get_dict[OF Inr] by blast
  note f = add_question_fields[OF Inr na nc nd, of e d]
  show ?thesis
  proof (cases "truthy nq \<and> truthy na \<and> truthy nc \<and> truthy nd")
    case False
    then have "snd (add_question e body d) = d"
      unfolding f by simp
    then show ?thesis using assms by simp
  next
    case t: True
    show ?thesis
    proof (cases "add_question_try e nq na nc nd d")
      case (Pair res d1)
      show ?thesis
      proof (cases res)
        case (Inl x)
        then have "questions d1 = questions d \<and> id_seq d1 = id_seq d"
          using add_question_try_fail Pair by blast
        then show ?thesis
          unfolding f using assms Pair Inl t
          by (simp add: store_ok_def session_close_def session_rollback_def)
      next
        case (Inr r)
        then obtain q a c df where "questions d1 = questions d @
             [\<lparr>qid = id_seq d, question = q, answer = a, category = c, difficulty = df\<rparr>]
           \<and> id_seq d1 = id_seq d + 1"
          using add_question_try_done Pair assms unfolding store_ok_def by blast
        then show ?thesis
          unfolding f using assms Pair Inr t
          by (auto simp: store_ok_def session_close_def list_all_iff)
      qed
    qed
  qed
qed

lemma view_keeps_store_ok:
  assumes "store_ok d"
  shows "store_ok (snd (view e m p r d)) \<and> id_seq d \<le> id_seq (snd (view e m p r d))"
proof -
  note del = delete_question_keeps_store_ok[OF assms]
  note add = add_question_keeps_store_ok[OF assms]
  show ?thesis
    by (cases m; cases p) (simp_all add: assms del add)
qed

lemma app_keeps_store_ok:
  assumes "store_ok d"
  shows "store_ok (snd (app e r d)) \<and> id_seq d \<le> id_seq (snd (app e r d))"
proof -
  have g: "store_ok (snd (view e GET (req_path r) r d))
        \<and> id_seq d \<le> id_seq (snd (view e GET (req_path r) r d))"
    by (rule view_keeps_store_ok[OF assms])
  have v: "store_ok (snd (view e (req_method r) (req_path r) r d))
        \<and> id_seq d \<le> id_seq (snd (view e (req_method r) (req_path r) r d))"
    by (rule view_keeps_store_ok[OF assms])
  show ?thesis
    unfolding app_def Let_def
    using assms g v by (auto split: prod.splits)
qed

lemma states_nonempty: "states steps d \<noteq> []"
  by (cases steps) auto

lemma states_store_ok:
  assumes "store_ok d0" and "d' \<in> set (states steps d0)"
  shows "store_ok d' \<and> id_seq d' \<le> id_seq (last (states steps d0))"
  using assms
proof (induction steps arbitrary: d0 d')
  case Nil
  then show ?case by simp
next
  case (Cons step steps)
  obtain e r where step: "step = (e, r)" by (cases step)
  note next_ok = app_keeps_store_ok[OF Cons.prems(1), of e r]
  have last: "last (states (step # steps) d0) = last (states steps (snd (app e r d0)))"
    using states_nonempty by (simp add: step)
  show ?case
  proof (cases "d' = d0")
    case True
    have "snd (app e r d0) \<in> set (states steps (snd (app e r d0)))"
      by (cases steps) auto
    then have "id_seq (snd (app e r d0)) \<le> id_seq (last (states steps (snd (app e r d0))))"
      using Cons.IH[OF next_ok[THEN conjunct1]] by blast
    then show ?thesis using True Cons.prems(1) next_ok last by simp
  next
    case False
    then have "d' \<in> set (states steps (snd (app e r d0)))"
      using Cons.prems(2) by (simp add: step)
    then show ?thesis
      using Cons.IH[OF next_ok[THEN conjunct1]] last by simp
  qed
qed

lemma id_seq_never_used:
  assumes "store_ok d0" and "d' \<in> set (states steps d0)"
  shows "id_seq (last (states steps d0)) \<notin> qid ` set (questions d')"
proof -
  have "store_ok d'" and le: "id_seq d' \<le> id_seq (last (states steps d0))"
    using states_store_ok[OF assms] by simp_all
  then have "\<forall>r\<in>set (questions d'). qid r < id_seq d'"
    by (simp add: store_ok_def list_all_iff)
  then show ?thesis using le by auto
qed

subsection \<open>The outcomes of a request\<close>

text \<open>
  Claim C5, as amended. For every \<^verbatim>\<open>POST /questions\<close> request whose body is a JSON
  object: if one of \<^verbatim>\<open>question\<close>, \<^verbatim>\<open>answer\<close>, \<^verbatim>\<open>category\<close>,
  \<^verbatim>\<open>difficulty\<close> is absent or falsy, the answer is 400 and nothing is inserted. If all
  four are truthy and the insert commits, the answer is 201 with \<^verbatim>\<open>created\<close> equal to
  a fresh, previously unused id, and the four fields echoed back as they are stored
  (strings and integers are stored as they are). If all four are truthy and the insert
  raises, the answer is 500 and nothing is inserted. Previously unused: whatever
  requests led from a first store, with its ids below the generator, to the present one,
  no question had the new id in any store on the way.
\<close>

theorem add_question_outcomes:
  assumes fields: "dict_get body ''question'' = Inr nq" "dict_get body ''answer'' = Inr na"
    "dict_get body ''category'' = Inr nc" "dict_get body ''difficulty'' = Inr nd"
  shows "(\<not> (truthy nq \<and> truthy na \<and> truthy nc \<and> truthy nd) \<longrightarrow>
            add_question e body d =
              ((400, VDict [(VStr ''success'', VBool False), (VStr ''error'', VInt 400),
                            (VStr ''message'', VStr ''bad request!'')]), d))
       \<and> (truthy nq \<and> truthy na \<and> truthy nc \<and> truthy nd
            \<and> store_ok d0 \<and> d = last (states steps d0)
            \<and> \<not> raises e Add \<and> \<not> raises e Commit
            \<and> row_values e nq na nc nd = Some (q, a, c, df) \<longrightarrow>
            fst (add_question e body d) =
              (201, VDict
                 [(VStr ''success'', VBool True),
                  (VStr ''created'', VInt (id_seq d)),
                  (VStr ''question'', VStr q),
                  (VStr ''answer'', VStr a),
                  (VStr ''category'', VInt c),
                  (VStr ''difficulty'', VInt df)])
            \<and> questions (snd (add_question e body d)) = questions d @
                 [\<lparr>qid = id_seq d, question = q, answer = a, category = c, difficulty = df\<rparr>]
            \<and> (\<forall>d'\<in>set (states steps d0). id_seq d \<notin> qid ` set (questions d')))
       \<and> (truthy nq \<and> truthy na \<and> truthy nc \<and> truthy nd \<and> pending d = []
            \<and> (raises e Add \<or> raises e Commit \<or> row_values e nq na nc nd = None) \<longrightarrow>
            fst (add_question e body d) =
              (500, VDict [(VStr ''success'', VBool False), (VStr ''error'', VInt 500),
                           (VStr ''message'', VStr ''internal server error!'')])
            \<and> questions (snd (add_question e body d)) = questions d)
       \<and> (nq = VStr q \<and> na = VStr a \<and> nc = VInt c \<and> nd = VInt df \<longrightarrow>
            row_values e nq na nc nd = Some (q, a, c, df))"
proof (intro conjI impI)
  assume "\<not> (truthy nq \<and> truthy na \<and> truthy nc \<and> truthy nd)"
  then show "add_question e body d =
              ((400, VDict [(VStr ''success'', VBool False), (VStr ''error'', VInt 400),
                            (VStr ''message'', VStr ''bad request!'')]), d)"
    by (simp add: add_question_fields[OF fields] abort_400)
next
  assume h: "truthy nq \<and> truthy na \<and> truthy nc \<and> truthy nd
            \<and> store_ok d0 \<and> d = last (states steps d0)
            \<and> \<not> raises e Add \<and> \<not> raises e Commit
            \<and> row_values e nq na nc nd = Some (q, a, c, df)"
  then have t: "truthy nq \<and> truthy na \<and> truthy nc \<and> truthy nd" by simp
  have start: "store_ok d0" and now: "d = last (states steps d0)" using h by simp_all
  have "d \<in> set (states steps d0)"
    unfolding now using states_nonempty by (rule last_in_set)
  then have "store_ok d" using states_store_ok[OF start] by blast
  then have clean: "pending d = []" by (simp add: store_ok_def)
  have tried: "add_question_try e nq na nc nd d =
     (Inr (201, VDict
            [(VStr ''success'', VBool True),
             (VStr ''created'', VInt (id_seq d)),
             (VStr ''question'', VStr q),
             (VStr ''answer'', VStr a),
             (VStr ''category'', VInt c),
             (VStr ''difficulty'', VInt df)]),
      d\<lparr>questions := questions d @
           [\<lparr>qid = id_seq d, question = q, answer = a, category = c, difficulty = df\<rparr>],
        id_seq := id_seq d + 1, pending := [], calls := calls d @ [Add, Commit]\<rparr>)"
    using h clean by (intro add_question_try_ok) simp_all
  show "fst (add_question e body d) =
              (201, VDict
                 [(VStr ''success'', VBool True),
                  (VStr ''created'', VInt (id_seq d)),
                  (VStr ''question'', VStr q),
                  (VStr ''answer'', VStr a),
                  (VStr ''category'', VInt c),
                  (VStr ''difficulty'', VInt df)])"
    using t by (simp add: add_question_fields[OF fields] tried)
  show "questions (snd (add_question e body d)) = questions d @
                 [\<lparr>qid = id_seq d, question = q, answer = a, category = c, difficulty = df\<rparr>]"
    using t by (simp add: add_question_fields[OF fields] tried session_close_def)
  show "\<forall>d'\<in>set (states steps d0). id_seq d \<notin> qid ` set (questions d')"
    unfolding now using id_seq_never_used[OF start] by blast
next
  assume h: "truthy nq \<and> truthy na \<and> truthy nc \<and> truthy nd \<and> pending d = []
            \<and> (raises e Add \<or> raises e Commit \<or> row_values e nq na nc nd = None)"
  then have t: "truthy nq \<and> truthy na \<and> truthy nc \<and> truthy nd" by simp
  from h obtain x d1 where tried: "add_question_try e nq na nc nd d = (Inl x, d1)"
    using add_question_try_raises[of e nq na nc nd d] by blast
  have q: "questions d1 = questions d" using add_question_try_fail[OF tried] by simp
  show "fst (add_question e body d) =
              (500, VDict [(VStr ''success'', VBool False), (VStr ''error'', VInt 500),
                           (VStr ''message'', VStr ''internal server error!'')])"
    using t by (simp add: add_question_fields[OF fields] tried abort_500)
  show "questions (snd (add_question e body d)) = questions d"
    using t by (simp add: add_question_fields[OF fields] tried q session_close_def session_rollback_def)
next
  assume "nq = VStr q \<and> na = VStr a \<and> nc = VInt c \<and> nd = VInt df"
  then show "row_values e nq na nc nd = Some (q, a, c, df)"
    by (simp add: row_values_def)
qed

lemma after_delete_21:
  "id_seq (last (states [(strict_env,
       \<lparr>req_method = DELETE, req_path = QuestionById 21, req_args = [], req_json = VNone\<rparr>)] quiz_db)) = 22"
  "map qid (questions (last (states [(strict_env,
       \<lparr>req_method = DELETE, req_path = QuestionById 21, req_args = [], req_json = VNone\<rparr>)] quiz_db)))
     = [5, 6, 20]"
  by code_simp+

theorem add_question_outcomes_witness:
  "fst (add_question strict_env taco_body
          (last (states [(strict_env,
             \<lparr>req_method = DELETE, req_path = QuestionById 21, req_args = [], req_json = VNone\<rparr>)]
             quiz_db))) =
     (201, VDict
        [(VStr ''success'', VBool True),
         (VStr ''created'', VInt 22),
         (VStr ''question'', VStr ''What day is Taco Tuesday?''),
         (VStr ''answer'', VStr ''Tuesday''),
         (VStr ''category'', VInt 3),
         (VStr ''difficulty'', VInt 2)])
   \<and> 22 \<notin> qid ` set (questions quiz_db)
   \<and> add_question strict_env taco_body_no_difficulty (trivia_db 12) =
       ((400, VDict [(VStr ''success'', VBool False), (VStr ''error'', VInt 400),
                     (VStr ''message'', VStr ''bad request!'')]), trivia_db 12)
   \<and> questions (snd (add_question strict_env taco_body_nested (trivia_db 12)))
       = questions (trivia_db 12)"
proof -
  let ?steps = "[(strict_env,
       \<lparr>req_method = DELETE, req_path = QuestionById 21, req_args = [], req_json = VNone\<rparr>)]"
  have g: "dict_get taco_body ''question'' = Inr (VStr ''What day is Taco Tuesday?'')"
    "dict_get taco_body ''answer'' = Inr (VStr ''Tuesday'')"
    "dict_get taco_body ''category'' = Inr (VInt 3)"
    "dict_get taco_body ''difficulty'' = Inr (VInt 2)"
    by (simp_all add: taco_body_def)
  have f: "dict_get taco_body_nested ''question'' = Inr (VStr ''What day is Taco Tuesday?'')"
    "dict_get taco_body_nested ''answer'' = Inr (VStr ''Tuesday'')"
    "dict_get taco_body_nested ''category'' = Inr (VInt 3)"
    "dict_get taco_body_nested ''difficulty'' = Inr (VDict [(VStr ''level'', VInt 2)])"
    by (simp_all add: taco_body_nested_def)
  have m: "dict_get taco_body_no_difficulty ''question'' = Inr (VStr ''What day is Taco Tuesday?'')"
    "dict_get taco_body_no_difficulty ''answer'' = Inr (VStr ''Tuesday'')"
    "dict_get taco_body_no_difficulty ''category'' = Inr (VInt 3)"
    "dict_get taco_body_no_difficulty ''difficulty'' = Inr VNone"
    by (simp_all add: taco_body_no_difficulty_def)
  have start: "store_ok quiz_db" by (simp add: store_ok_def quiz_db_def)
  have hg: "truthy (VStr ''What day is Taco Tuesday?'') \<and> truthy (VStr ''Tuesday'')
      \<and> truthy (VInt 3) \<and> truthy (VInt 2)
      \<and> store_ok quiz_db \<and> last (states ?steps quiz_db) = last (states ?steps quiz_db)
      \<and> \<not> raises strict_env Add \<and> \<not> raises strict_env Commit
      \<and> row_values strict_env (VStr ''What day is Taco Tuesday?'') (VStr ''Tuesday'') (VInt 3) (VInt 2)
           = Some (''What day is Taco Tuesday?'', ''Tuesday'', 3, 2)"
    using start by (simp add: strict_env_def row_values_def)
  have hf: "truthy (VStr ''What day is Taco Tuesday?'') \<and> truthy (VStr ''Tuesday'')
      \<and> truthy (VInt 3) \<and> truthy (VDict [(VStr ''level'', VInt 2)]) \<and> pending (trivia_db 12) = []
      \<and> (raises strict_env Add \<or> raises strict_env Commit
          \<or> row_values strict_env (VStr ''What day is Taco Tuesday?'') (VStr ''Tuesday'') (VInt 3)
               (VDict [(VStr ''level'', VInt 2)]) = None)"
    by (simp add: strict_env_def row_values_def trivia_db_def)
  have hm: "\<not> (truthy (VStr ''What day is Taco Tuesday?'') \<and> truthy (VStr ''Tuesday'')
      \<and> truthy (VInt 3) \<and> truthy VNone)"
    by simp
  note a = add_question_outcomes[OF g, where e = strict_env and d = "last (states ?steps quiz_db)"
             and ?d0.0 = quiz_db and steps = ?steps and q = "''What day is Taco Tuesday?''"
             and a = "''Tuesday''" and c = 3 and df = 2,
             THEN conjunct2, THEN conjunct1, THEN mp, OF hg]
  note b = add_question_outcomes[OF m, of strict_env "trivia_db 12",
             THEN conjunct1, THEN mp, OF hm]
  note c = add_question_outcomes[OF f, of strict_env "trivia_db 12",
             THEN conjunct2, THEN conjunct2, THEN conjunct1, THEN mp, OF hf]
  have 1: "fst (add_question strict_env taco_body (last (states ?steps quiz_db))) =
     (201, VDict
        [(VStr ''success'', VBool True),
         (VStr ''created'', VInt 22),
         (VStr ''question'', VStr ''What day is Taco Tuesday?''),
         (VStr ''answer'', VStr ''Tuesday''),
         (VStr ''category'', VInt 3),
         (VStr ''difficulty'', VInt 2)])"
    using a[THEN conjunct1] by (simp only: after_delete_21)
  have "quiz_db \<in> set (states ?steps quiz_db)" by simp
  then have "id_seq (last (states ?steps quiz_db)) \<notin> qid ` set (questions quiz_db)"
    using a[THEN conjunct2, THEN conjunct2] by blast
  then have 2: "22 \<notin> qid ` set (questions quiz_db)"
    unfolding after_delete_21(1) .
  show ?thesis
    by (intro conjI 1 2 b c[THEN conjunct2])
qed

text \<open>
  The claim C5 as stated fails: all four fields are truthy and the answer is 500, when
  \<^verbatim>\<open>difficulty\<close> is a JSON object, which the database refuses, and when the commit
  raises.
\<close>

theorem add_question_all_truthy_counterexample:
  "dict_get taco_body_nested ''question'' = Inr (VStr ''What day is Taco Tuesday?'')
   \<and> dict_get taco_body_nested ''answer'' = Inr (VStr ''Tuesday'')
   \<and> dict_get taco_body_nested ''category'' = Inr (VInt 3)
   \<and> dict_get taco_body_nested ''difficulty'' = Inr (VDict [(VStr ''level'', VInt 2)])
   \<and> truthy (VStr ''What day is Taco Tuesday?'') \<and> truthy (VStr ''Tuesday'')
   \<and> truthy (VInt 3) \<and> truthy (VDict [(VStr ''level'', VInt 2)])
   \<and> fst (add_question strict_env taco_body_nested (trivia_db 12)) =
        (500, VDict [(VStr ''success'', VBool False), (VStr ''error'', VInt 500),
                     (VStr ''message'', VStr ''internal server error!'')])
   \<and> fst (add_question failing_commit_env taco_body (trivia_db 12)) =
        (500, VDict [(VStr ''success'', VBool False), (VStr ''error'', VInt 500),
                     (VStr ''message'', VStr ''internal server error!'')])"
proof -
  have f: "dict_get taco_body_nested ''question'' = Inr (VStr ''What day is Taco Tuesday?'')"
    "dict_get taco_body_nested ''answer'' = Inr (VStr ''Tuesday'')"
    "dict_get taco_body_nested ''category'' = Inr (VInt 3)"
    "dict_get taco_body_nested ''difficulty'' = Inr (VDict [(VStr ''level'', VInt 2)])"
    by (simp_all add: taco_body_nested_def)
  have g: "dict_get taco_body ''question'' = Inr (VStr ''What day is Taco Tuesday?'')"
    "dict_get taco_body ''answer'' = Inr (VStr ''Tuesday'')"
    "dict_get taco_body ''category'' = Inr (VInt 3)"
    "dict_get taco_body ''difficulty'' = Inr (VInt 2)"
    by (simp_all add: taco_body_def)
  have 1: "fst (add_question strict_env taco_body_nested (trivia_db 12)) =
        (500, VDict [(VStr ''success'', VBool False), (VStr ''error'', VInt 500),
                     (VStr ''message'', VStr ''internal server error!'')])"
    by (simp add: add_question_fields[OF f] add_question_try_def session_add_def
          session_commit_def row_values_def strict_env_def trivia_db_def Let_def abort_500)
  have 2: "fst (add_question failing_commit_env taco_body (trivia_db 12)) =
        (500, VDict [(VStr ''success'', VBool False), (VStr ''error'', VInt 500),
                     (VStr ''message'', VStr ''internal server error!'')])"
    by (simp add: add_question_fields[OF g] add_question_try_def session_add_def
          session_commit_def failing_commit_env_def strict_env_def Let_def abort_500)
  show ?thesis
    using f 1 2 by simp
qed

section \<open>Searching questions\<close>

lemma like_literal:
  "list_all (\<lambda>c. \<not> wildcard c) t \<Longrightarrow> like (t @ ps) s = (\<exists>r. s = t @ r \<and> like ps r)"
proof (induction t arbitrary: s)
  case Nil
  then show ?case by simp
next
  case (Cons c t)
  then have c: "c \<noteq> CHR ''%''" "c \<noteq> CHR ''_''" "c \<noteq> CHR 0x5C" and t: "list_all (\<lambda>c. \<not> wildcard c) t"
    by (auto simp: wildcard_def)
  show ?case
  proof (cases s)
    case Nil
    then show ?thesis using c by simp
  next
    case (Cons x s')
    then show ?thesis using c Cons.IH[OF t, of s'] by auto
  qed
qed

lemma like_percent_only: "like ''%'' s"
  by (induction s) auto

lemma like_percent: "like (CHR ''%'' # ps) s = (\<exists>xs r. s = xs @ r \<and> like ps r)"
proof (induction s)
  case Nil
  then show ?case by simp
next
  case (Cons c s)
  have "(\<exists>xs r. c # s = xs @ r \<and> like ps r) = (like ps (c # s) \<or> (\<exists>xs r. s = xs @ r \<and> like ps r))"
  proof
    assume "\<exists>xs r. c # s = xs @ r \<and> like ps r"
    then obtain xs r where e: "c # s = xs @ r" and l: "like ps r" by blast
    show "like ps (c # s) \<or> (\<exists>xs r. s = xs @ r \<and> like ps r)"
    proof (cases xs)
      case Nil
      then show ?thesis using e l by simp
    next
      case (Cons y ys)
      then have "s = ys @ r" using e by simp
      then show ?thesis using l by blast
    qed
  next
    assume "like ps (c # s) \<or> (\<exists>xs r. s = xs @ r \<and> like ps r)"
    then show "\<exists>xs r. c # s = xs @ r \<and> like ps r"
    proof
      assume "like ps (c # s)"
      then have "c # s = [] @ (c # s) \<and> like ps (c # s)" by simp
      then show ?thesis by blast
    next
      assume "\<exists>xs r. s = xs @ r \<and> like ps r"
      then obtain xs r where "s = xs @ r" "like ps r" by blast
      then have "c # s = (c # xs) @ r \<and> like ps r" by simp
      then show ?thesis by blast
    qed
  qed
  then show ?case using Cons.IH by simp
qed

lemma like_contains:
  assumes "list_all (\<lambda>c. \<not> wildcard c) t"
  shows "like (''%'' @ t @ ''%'') s = sublist t s"
proof -
  have "like (''%'' @ t @ ''%'') s = (\<exists>xs r. s = xs @ r \<and> like (t @ ''%'') r)"
    using like_percent[of "t @ ''%''" s] by simp
  also have "\<dots> = (\<exists>xs r. s = xs @ r \<and> (\<exists>r'. r = t @ r' \<and> like ''%'' r'))"
    by (simp only: like_literal[OF assms])
  also have "\<dots> = (\<exists>xs r'. s = xs @ t @ r')"
    by (auto simp: like_percent_only)
  finally show ?thesis by (simp add: sublist_def)
qed

lemma lower_wildcard: "wildcard (lower c) = wildcard c"
proof (cases "65 \<le> (of_char c :: nat) \<and> (of_char c :: nat) \<le> 90")
  case False
  then have "lower c = c" unfolding lower_def by (simp only: if_False)
  then show ?thesis by simp
next
  case True
  then have "\<not> wildcard c" by (auto simp: wildcard_def)
  moreover have "(of_char (lower c) :: nat) = of_char c + 32"
    using True by (simp add: lower_def)
  then have "\<not> wildcard (lower c)" using True by (auto simp: wildcard_def)
  ultimately show ?thesis by simp
qed

lemma ilike_contains:
  assumes "list_all (\<lambda>c. \<not> wildcard c) t"
  shows "ilike s (''%'' @ t @ ''%'') = sublist (map lower t) (map lower s)"
proof -
  have l: "lower CHR ''%'' = CHR ''%''" by (simp add: lower_def)
  have "list_all (\<lambda>c. \<not> wildcard c) (map lower t)"
    using assms by (simp add: list_all_iff lower_wildcard)
  from like_contains[OF this, of "map lower s"] show ?thesis
    by (simp add: ilike_def l)
qed

text \<open>
  Claim C6, as amended. For every \<^verbatim>\<open>POST /questions/search\<close> request whose body is a
  JSON object: a missing or falsy \<^verbatim>\<open>searchTerm\<close> is answered 400. Otherwise, when
  the query does not raise, the answer is 200 with exactly the stored questions whose
  text matches the pattern \<^verbatim>\<open>%term%\<close> under \<^verbatim>\<open>ILIKE\<close>, their number, and
  \<^verbatim>\<open>current_category\<close> null; when the query raises the answer is 500. For a term
  without \<^verbatim>\<open>%\<close>, \<^verbatim>\<open>_\<close> and backslash the questions matched are exactly those
  that contain the term, letters compared without case.
\<close>

theorem search_questions_outcomes:
  assumes field: "dict_get body ''searchTerm'' = Inr search_term"
  shows "(\<not> truthy search_term \<longrightarrow>
            search_questions e body d =
              (400, VDict [(VStr ''success'', VBool False), (VStr ''error'', VInt 400),
                           (VStr ''message'', VStr ''bad request!'')]))
       \<and> (truthy search_term \<and> \<not> raises e Select \<longrightarrow>
            search_questions e body d =
              (200, VDict
                 [(VStr ''success'', VBool True),
                  (VStr ''questions'', VList (map format
                     [q \<leftarrow> questions d. ilike (question q) (''%'' @ fstring e search_term @ ''%'')])),
                  (VStr ''total_questions'', VInt (int (length
                     [q \<leftarrow> questions d. ilike (question q) (''%'' @ fstring e search_term @ ''%'')]))),
                  (VStr ''current_category'', VNone)]))
       \<and> (truthy search_term \<and> raises e Select \<longrightarrow>
            search_questions e body d =
              (500, VDict [(VStr ''success'', VBool False), (VStr ''error'', VInt 500),
                           (VStr ''message'', VStr ''internal server error!'')]))
       \<and> (search_term = VStr s \<and> list_all (\<lambda>c. \<not> wildcard c) s \<longrightarrow>
            [q \<leftarrow> questions d. ilike (question q) (''%'' @ fstring e search_term @ ''%'')]
            = [q \<leftarrow> questions d. sublist (map lower s) (map lower (question q))])"
proof (intro conjI impI)
  assume "\<not> truthy search_term"
  then show "search_questions e body d =
              (400, VDict [(VStr ''success'', VBool False), (VStr ''error'', VInt 400),
                           (VStr ''message'', VStr ''bad request!'')])"
    by (simp add: search_questions_def field abort_400)
next
  assume "truthy search_term \<and> \<not> raises e Select"
  then show "search_questions e body d =
              (200, VDict
                 [(VStr ''success'', VBool True),
                  (VStr ''questions'', VList (map format
                     [q \<leftarrow> questions d. ilike (question q) (''%'' @ fstring e search_term @ ''%'')])),
                  (VStr ''total_questions'', VInt (int (length
                     [q \<leftarrow> questions d. ilike (question q) (''%'' @ fstring e search_term @ ''%'')]))),
                  (VStr ''current_category'', VNone)])"
    by (simp add: search_questions_def field search_questions_try_def Let_def)
next
  assume "truthy search_term \<and> raises e Select"
  then show "search_questions e body d =
              (500, VDict [(VStr ''success'', VBool False), (VStr ''error'', VInt 500),
                           (VStr ''message'', VStr ''internal server error!'')])"
    by (simp add: search_questions_def field search_questions_try_def abort_500)
next
  assume h: "search_term = VStr s \<and> list_all (\<lambda>c. \<not> wildcard c) s"
  then have "fstring e search_term = s" by (simp add: fstring_def)
  then show "[q \<leftarrow> questions d. ilike (question q) (''%'' @ fstring e search_term @ ''%'')]
            = [q \<leftarrow> questions d. sublist (map lower s) (map lower (question q))]"
    using h ilike_contains[of s] by simp
qed

theorem search_questions_outcomes_witness:
  "search_questions strict_env (VDict [(VStr ''searchTerm'', VStr ''title'')]) quiz_db =
     (200, VDict
        [(VStr ''success'', VBool True),
         (VStr ''questions'', VList
            [format \<lparr>qid = 6, question = ''What was the Title of the film?'',
                     answer = ''Edward Scissorhands'', category = 5, difficulty = 3\<rparr>]),
         (VStr ''total_questions'', VInt 1),
         (VStr ''current_category'', VNone)])
   \<and> fst (search_questions strict_env (VDict [(VStr ''seachTerm'', VStr '''')]) quiz_db) = 400"
proof -
  have t: "dict_get (VDict [(VStr ''searchTerm'', VStr ''title'')]) ''searchTerm'' = Inr (VStr ''title'')"
    by simp
  have u: "dict_get (VDict [(VStr ''seachTerm'', VStr '''')]) ''searchTerm'' = Inr VNone"
    by simp
  have h: "truthy (VStr ''title'') \<and> \<not> raises strict_env Select"
    by (simp add: strict_env_def)
  have w: "VStr ''title'' = VStr ''title'' \<and> list_all (\<lambda>c. \<not> wildcard c) ''title''"
    by (simp add: wildcard_def)
  note a = search_questions_outcomes[OF t, where e = strict_env and d = quiz_db,
             THEN conjunct2, THEN conjunct1, THEN mp, OF h]
  note b = search_questions_outcomes[OF t, where e = strict_env and d = quiz_db and s = "''title''",
             THEN conjunct2, THEN conjunct2, THEN conjunct2, THEN mp, OF w]
  note c = search_questions_outcomes[OF u, where e = strict_env and d = quiz_db, THEN conjunct1]
  have f: "[q \<leftarrow> questions quiz_db. sublist (map lower ''title'') (map lower (question q))]
      = [\<lparr>qid = 6, question = ''What was the Title of the film?'',
                     answer = ''Edward Scissorhands'', category = 5, difficulty = 3\<rparr>]"
    by code_simp
  have 1: "search_questions strict_env (VDict [(VStr ''searchTerm'', VStr ''title'')]) quiz_db =
     (200, VDict
        [(VStr ''success'', VBool True),
         (VStr ''questions'', VList
            [format \<lparr>qid = 6, question = ''What was the Title of the film?'',
                     answer = ''Edward Scissorhands'', category = 5, difficulty = 3\<rparr>]),
         (VStr ''total_questions'', VInt 1),
         (VStr ''current_category'', VNone)])"
    unfolding a b f by simp
  have 2: "fst (search_questions strict_env (VDict [(VStr ''seachTerm'', VStr '''')]) quiz_db) = 400"
    using c by simp
  show ?thesis by (intro conjI 1 2)
qed

text \<open>
  The claim C6 as stated fails for a term with a wildcard: the term \<^verbatim>\<open>_\<close> selects
  every question of the store, and none of them contains an underscore.
\<close>

theorem search_questions_wildcard_counterexample:
  "search_questions strict_env (VDict [(VStr ''searchTerm'', VStr ''_'')]) quiz_db =
     (200, VDict
        [(VStr ''success'', VBool True),
         (VStr ''questions'', VList (map format (questions quiz_db))),
         (VStr ''total_questions'', VInt 4),
         (VStr ''current_category'', VNone)])
   \<and> CHR ''_'' \<notin> set (concat (map question (questions quiz_db)))"
proof -
  have 1: "search_questions strict_env (VDict [(VStr ''searchTerm'', VStr ''_'')]) quiz_db =
     (200, VDict
        [(VStr ''success'', VBool True),
         (VStr ''questions'', VList (map format (questions quiz_db))),
         (VStr ''total_questions'', VInt 4),
         (VStr ''current_category'', VNone)])"
    by code_simp
  have 2: "CHR ''_'' \<notin> set (concat (map question (questions quiz_db)))"
    by code_simp
  show ?thesis by (intro conjI 1 2)
qed

section \<open>Playing the quiz\<close>

lemma play_quiz_fields:
  assumes "dict_get body ''quiz_category'' = Inr qc"
    and "dict_get body ''previous_questions'' = Inr prev"
  shows "play_quiz_try e body d =
     (if qc = VNone \<or> prev = VNone then Inl (HTTPException 400)
      else
          (case getitem qc ''id'' of Inl x \<Rightarrow> Inl x | Inr cid \<Rightarrow>
           case (if eq_zero cid then query_excluding e prev d
                 else query_category_excluding e cid prev d) of
             Inl x \<Rightarrow> Inl x
           | Inr available_questions \<Rightarrow>
               (case (if available_questions \<noteq> []
                      then map_sum id format (random_choice e available_questions)
                      else Inr VNone) of
                  Inl x \<Rightarrow> Inl x
                | Inr new_question \<Rightarrow>
                    Inr (200, VDict
                      [(VStr ''success'', VBool True),
                       (VStr ''question'', new_question)]))))"
  using assms by (simp add: play_quiz_try_def)












lemma int_ids_VInt: "int_ids (map VInt ps) = Some ps"
  by (induction ps) simp_all

lemma format_inject: "format q = format q' \<Longrightarrow> q = (q' :: question_row)"
  by (cases q, cases q') (simp add: format_def)

lemma play_quiz_try_typed:
  assumes cat: "dict_get body ''quiz_category'' = Inr qc"
    and cid: "getitem qc ''id'' = Inr (VInt c)"
    and prev: "dict_get body ''previous_questions'' = Inr (VList (map VInt ps))"
    and ok: "\<not> raises e Select"
    and el: "eligible = (if c = 0 then [q \<leftarrow> questions d. qid q \<notin> set ps]
                         else [q \<leftarrow> questions d. category q = c \<and> qid q \<notin> set ps])"
  shows "play_quiz_try e body d =
           (if eligible = [] then Inr (200, VDict [(VStr ''success'', VBool True), (VStr ''question'', VNone)])
            else if randbelow e (length eligible) < length eligible
              then Inr (200, VDict [(VStr ''success'', VBool True),
                                    (VStr ''question'', format (eligible ! randbelow e (length eligible)))])
              else Inl IndexError)"
proof -
  have qc: "qc \<noteq> VNone" using cid by auto
  show ?thesis
  proof (cases "c = 0")
    case True
    then have q: "query_excluding e (VList (map VInt ps)) d = Inr eligible"
      using ok el by (simp add: query_excluding_def int_ids_VInt)
    show ?thesis
      unfolding play_quiz_fields[OF cat prev]
      using qc True by (simp add: cid q random_choice_def Let_def)
  next
    case False
    then have q: "query_category_excluding e (VInt c) (VList (map VInt ps)) d = Inr eligible"
      using ok el by (simp add: query_category_excluding_def int_ids_VInt)
    show ?thesis
      unfolding play_quiz_fields[OF cat prev]
      using qc False by (simp add: cid q random_choice_def Let_def)
  qed
qed

text \<open>
  Claim C1. For a body with \<^verbatim>\<open>quiz_category\<close> an object whose \<^verbatim>\<open>id\<close> is an
  integer and \<^verbatim>\<open>previous_questions\<close> a list of integers, and a query that does not
  raise: the eligible questions are, for the id 0, the stored questions whose id is not
  in the list, otherwise the questions of that category whose id is not in the list.
  When there is none the answer is 200 with \<^verbatim>\<open>success\<close> true and a null question.
  Otherwise the answer is 200 with the eligible question at the index drawn, and the
  draws \<open>0, \<dots>, n - 1\<close> correspond one to one to the \<open>n\<close> eligible questions: a
  uniform draw gives a uniform choice.
\<close>

theorem play_quiz_selection:
  assumes cat: "dict_get body ''quiz_category'' = Inr qc"
    and cid: "getitem qc ''id'' = Inr (VInt c)"
    and prev: "dict_get body ''previous_questions'' = Inr (VList (map VInt ps))"
    and el: "eligible = (if c = 0 then [q \<leftarrow> questions d. qid q \<notin> set ps]
                         else [q \<leftarrow> questions d. category q = c \<and> qid q \<notin> set ps])"
  shows "(\<not> raises e Select \<and> eligible = [] \<longrightarrow>
            play_quiz e body d =
              (200, VDict [(VStr ''success'', VBool True), (VStr ''question'', VNone)]))
       \<and> (\<not> raises e Select \<and> randbelow e (length eligible) < length eligible \<longrightarrow>
            play_quiz e body d =
              (200, VDict [(VStr ''success'', VBool True),
                           (VStr ''question'', format (eligible ! randbelow e (length eligible)))])
            \<and> eligible ! randbelow e (length eligible) \<in> set eligible)
       \<and> (\<not> raises e Select \<and> distinct (map qid (questions d)) \<longrightarrow>
            bij_betw (\<lambda>k. play_quiz (e\<lparr>randbelow := (\<lambda>n. k)\<rparr>) body d) {..<length eligible}
              ((\<lambda>q. (200, VDict [(VStr ''success'', VBool True), (VStr ''question'', format q)]))
                 ` set eligible))"
proof (intro conjI impI)
  assume h: "\<not> raises e Select \<and> eligible = []"
  then show "play_quiz e body d =
              (200, VDict [(VStr ''success'', VBool True), (VStr ''question'', VNone)])"
    using play_quiz_try_typed[OF cat cid prev _ el, of e] by (simp add: play_quiz_def)
next
  assume h: "\<not> raises e Select \<and> randbelow e (length eligible) < length eligible"
  then have ne: "eligible \<noteq> []" by auto
  show "play_quiz e body d =
              (200, VDict [(VStr ''success'', VBool True),
                           (VStr ''question'', format (eligible ! randbelow e (length eligible)))])"
    using h ne play_quiz_try_typed[OF cat cid prev _ el, of e] by (simp add: play_quiz_def)
  show "eligible ! randbelow e (length eligible) \<in> set eligible"
    using h by simp
next
  assume h: "\<not> raises e Select \<and> distinct (map qid (questions d))"
  let ?resp = "\<lambda>q. (200 :: nat, VDict [(VStr ''success'', VBool True), (VStr ''question'', format q)])"
  have dist: "distinct eligible"
    using h el by (auto simp: distinct_map)
  have ok: "\<not> raises (e\<lparr>randbelow := (\<lambda>n. k)\<rparr>) Select" for k using h by simp
  have draw: "play_quiz (e\<lparr>randbelow := (\<lambda>n. k)\<rparr>) body d = ?resp (eligible ! k)"
    if "k < length eligible" for k
  proof -
    have ne: "eligible \<noteq> []" using that by auto
    show ?thesis
      using that ne play_quiz_try_typed[OF cat cid prev ok el, of k] by (simp add: play_quiz_def)
  qed
  have inj: "inj_on (\<lambda>k. play_quiz (e\<lparr>randbelow := (\<lambda>n. k)\<rparr>) body d) {..<length eligible}"
  proof (rule inj_onI)
    fix j k
    assume j: "j \<in> {..<length eligible}" and k: "k \<in> {..<length eligible}"
      and eq: "play_quiz (e\<lparr>randbelow := (\<lambda>n. j)\<rparr>) body d = play_quiz (e\<lparr>randbelow := (\<lambda>n. k)\<rparr>) body d"
    have "format (eligible ! j) = format (eligible ! k)"
      using eq draw[of j] draw[of k] j k by simp
    then have "eligible ! j = eligible ! k" by (rule format_inject)
    then show "j = k" using dist j k by (simp add: nth_eq_iff_index_eq)
  qed
  have img: "(\<lambda>k. play_quiz (e\<lparr>randbelow := (\<lambda>n. k)\<rparr>) body d) ` {..<length eligible}
             = ?resp ` set eligible"
  proof -
    have "(\<lambda>k. play_quiz (e\<lparr>randbelow := (\<lambda>n. k)\<rparr>) body d) ` {..<length eligible}
          = (\<lambda>k. ?resp (eligible ! k)) ` {..<length eligible}"
      by (rule image_cong) (simp_all add: draw)
    also have "\<dots> = ?resp ` ((\<lambda>k. eligible ! k) ` {..<length eligible})"
      by (simp only: image_image)
    also have "(\<lambda>k. eligible ! k) ` {..<length eligible} = set eligible"
      by (auto simp: set_conv_nth)
    finally show ?thesis .
  qed
  show "bij_betw (\<lambda>k. play_quiz (e\<lparr>randbelow := (\<lambda>n. k)\<rparr>) body d) {..<length eligible}
              (?resp ` set eligible)"
    unfolding bij_betw_def using inj img by blast
qed

theorem play_quiz_selection_witness:
  "play_quiz strict_env quiz_body quiz_db =
     (200, VDict
        [(VStr ''success'', VBool True),
         (VStr ''question'', VDict
            [(VStr ''id'', VInt 20),
             (VStr ''question'', VStr ''What is the heaviest organ?''),
             (VStr ''answer'', VStr ''The Liver''),
             (VStr ''category'', VInt 1),
             (VStr ''difficulty'', VInt 4)])])
   \<and> play_quiz strict_env
        (VDict [(VStr ''quiz_category'', VDict [(VStr ''id'', VInt 1)]),
                (VStr ''previous_questions'', VList [VInt 20, VInt 21])]) quiz_db =
       (200, VDict [(VStr ''success'', VBool True), (VStr ''question'', VNone)])"
proof -
  let ?q20 = "\<lparr>qid = 20, question = ''What is the heaviest organ?'', answer = ''The Liver'',
          category = 1, difficulty = 4\<rparr>"
  let ?q21 = "\<lparr>qid = 21, question = ''Who discovered penicillin?'', answer = ''Alexander Fleming'',
          category = 1, difficulty = 3\<rparr>"
  have cat: "dict_get quiz_body ''quiz_category''
               = Inr (VDict [(VStr ''id'', VInt 1), (VStr ''type'', VStr ''Science'')])"
    by (simp add: quiz_body_def)
  have cid: "getitem (VDict [(VStr ''id'', VInt 1), (VStr ''type'', VStr ''Science'')]) ''id'' = Inr (VInt 1)"
    by simp
  have prev: "dict_get quiz_body ''previous_questions'' = Inr (VList (map VInt [5, 9, 13]))"
    by (simp add: quiz_body_def)
  have el: "[?q20, ?q21] =
      (if (1::int) = 0 then [q \<leftarrow> questions quiz_db. qid q \<notin> set [5, 9, 13]]
       else [q \<leftarrow> questions quiz_db. category q = 1 \<and> qid q \<notin> set [5, 9, 13]])"
    by (simp add: quiz_db_def)
  have h: "\<not> raises strict_env Select
           \<and> randbelow strict_env (length [?q20, ?q21]) < length [?q20, ?q21]"
    by (simp add: strict_env_def)
  have 1: "play_quiz strict_env quiz_body quiz_db =
     (200, VDict
        [(VStr ''success'', VBool True),
         (VStr ''question'', VDict
            [(VStr ''id'', VInt 20),
             (VStr ''question'', VStr ''What is the heaviest organ?''),
             (VStr ''answer'', VStr ''The Liver''),
             (VStr ''category'', VInt 1),
             (VStr ''difficulty'', VInt 4)])])"
    using play_quiz_selection[OF cat cid prev el, where e = strict_env,
            THEN conjunct2, THEN conjunct1, THEN mp, OF h, THEN conjunct1]
    by (simp add: strict_env_def format_def)
  have cat': "dict_get (VDict [(VStr ''quiz_category'', VDict [(VStr ''id'', VInt 1)]),
                (VStr ''previous_questions'', VList [VInt 20, VInt 21])]) ''quiz_category''
               = Inr (VDict [(VStr ''id'', VInt 1)])"
    by simp
  have cid': "getitem (VDict [(VStr ''id'', VInt 1)]) ''id'' = Inr (VInt 1)"
    by simp
  have prev': "dict_get (VDict [(VStr ''quiz_category'', VDict [(VStr ''id'', VInt 1)]),
                (VStr ''previous_questions'', VList [VInt 20, VInt 21])]) ''previous_questions''
               = Inr (VList (map VInt [20, 21]))"
    by simp
  have el': "[] =
      (if (1::int) = 0 then [q \<leftarrow> questions quiz_db. qid q \<notin> set [20, 21]]
       else [q \<leftarrow> questions quiz_db. category q = 1 \<and> qid q \<notin> set [20, 21]])"
    by (simp add: quiz_db_def)
  have h': "\<not> raises strict_env Select \<and> ([] :: question_row list) = []"
    by (simp add: strict_env_def)
  have 2: "play_quiz strict_env
        (VDict [(VStr ''quiz_category'', VDict [(VStr ''id'', VInt 1)]),
                (VStr ''previous_questions'', VList [VInt 20, VInt 21])]) quiz_db =
       (200, VDict [(VStr ''success'', VBool True), (VStr ''question'', VNone)])"
    by (rule play_quiz_selection[OF cat' cid' prev' el', where e = strict_env,
            THEN conjunct1, THEN mp, OF h'])
  show ?thesis by (intro conjI 1 2)
qed

end
